theory Spec2Isabelle
  imports Complex_Main "HOL-Library.AList"
begin

section \<open>Common Python notions\<close>

text \<open>
  Exceptions of the Python sources are values. An operation that can raise returns
  \<open>exn + 'a\<close>, with \<open>Inl\<close> for the raised exception.
\<close>

datatype exn =
    IndexError
  | KeyError string
  | ValueError string
  | OSError string
  | Exception string

text \<open>The text of an exception, as \<open>str(e)\<close> gives it.\<close>

fun exn_message :: "exn \<Rightarrow> string" where
  "exn_message IndexError = ''list index out of range''"
| "exn_message (KeyError m) = m"
| "exn_message (ValueError m) = m"
| "exn_message (OSError m) = m"
| "exn_message (Exception m) = m"

section \<open>Qwiic\_SensorsQT/data\_manager.py\<close>

text \<open>
  \<open>collections.deque(maxlen=n)\<close>: the constructor raises \<open>ValueError\<close> for a negative
  \<open>n\<close>; \<open>append\<close> adds on the right and, when the length then exceeds \<open>maxlen\<close>, drops
  one element on the left (so a deque of capacity 0 stays empty).
\<close>

definition deque_new :: "int \<Rightarrow> exn + nat" where
  "deque_new n = (if n < 0 then Inl (ValueError ''maxlen must be non-negative'') else Inr (nat n))"

definition deque_append :: "nat \<Rightarrow> 'a list \<Rightarrow> 'a \<Rightarrow> 'a list" where
  "deque_append cap xs x = (let ys = xs @ [x] in if length ys > cap then tl ys else ys)"

text \<open>
  A \<open>datetime\<close> is an instant counted in microseconds (the resolution of Python's
  \<open>datetime\<close>); a \<open>timedelta\<close> is a number of microseconds. The payload of a history
  entry (the dictionary of readings) is a type parameter.
\<close>

type_synonym datetime = int

definition minutes :: "int \<Rightarrow> int" where
  "minutes n = n * 60 * 1000000"

definition hours :: "int \<Rightarrow> int" where
  "hours n = n * 3600 * 1000000"

record 'd DataManager =
  maxlen :: nat
  sensor_data_history :: "'d list"
  timestamps :: "datetime list"

definition DataManager_init :: "int \<Rightarrow> exn + 'd DataManager" where
  "DataManager_init max_data_points =
     (case deque_new max_data_points of
        Inl e \<Rightarrow> Inl e
      | Inr cap \<Rightarrow> Inr \<lparr> maxlen = cap, sensor_data_history = [], timestamps = [] \<rparr>)"

definition add_data :: "datetime \<Rightarrow> 'd \<Rightarrow> 'd DataManager \<Rightarrow> 'd DataManager" where
  "add_data timestamp data dm =
     dm \<lparr> timestamps := deque_append (maxlen dm) (timestamps dm) timestamp,
          sensor_data_history := deque_append (maxlen dm) (sensor_data_history dm) data \<rparr>"

text \<open>Any sequence of \<open>add_data\<close> calls, oldest call first.\<close>

fun add_all :: "(datetime \<times> 'd) list \<Rightarrow> 'd DataManager \<Rightarrow> 'd DataManager" where
  "add_all [] dm = dm"
| "add_all ((t, d) # rest) dm = add_all rest (add_data t d dm)"

text \<open>
  \<open>get_filtered_data\<close>: the \<open>if\<close>/\<open>elif\<close> chain that sets \<open>time_limit\<close>, then the loop
  over \<open>enumerate(self.timestamps)\<close>, which reads \<open>self.sensor_data_history[i]\<close> (an
  \<open>IndexError\<close> if the history is shorter). \<open>current_time\<close> is the value that
  \<open>datetime.datetime.now()\<close> returned.
\<close>

definition time_limit_of :: "datetime \<Rightarrow> string \<Rightarrow> datetime option" where
  "time_limit_of current_time time_range_str =
     (if time_range_str = ''Last 10 minutes'' then Some (current_time - minutes 10)
      else if time_range_str = ''Last 30 minutes'' then Some (current_time - minutes 30)
      else if time_range_str = ''Last hour'' then Some (current_time - hours 1)
      else if time_range_str = ''Last 6 hours'' then Some (current_time - hours 6)
      else if time_range_str = ''Last 24 hours'' then Some (current_time - hours 24)
      else None)"

fun filter_loop ::
  "datetime option \<Rightarrow> 'd list \<Rightarrow> (nat \<times> datetime) list \<Rightarrow> datetime list \<times> 'd list
     \<Rightarrow> exn + (datetime list \<times> 'd list)" where
  "filter_loop time_limit hist [] acc = Inr acc"
| "filter_loop time_limit hist ((i, timestamp) # rest) (filtered_timestamps, filtered_sensor_data) =
     (if (case time_limit of None \<Rightarrow> True | Some limit \<Rightarrow> timestamp \<ge> limit)
      then (if i < length hist
            then filter_loop time_limit hist rest
                   (filtered_timestamps @ [timestamp], filtered_sensor_data @ [hist ! i])
            else Inl IndexError)
      else filter_loop time_limit hist rest (filtered_timestamps, filtered_sensor_data))"

definition get_filtered_data ::
  "datetime \<Rightarrow> string \<Rightarrow> 'd DataManager \<Rightarrow> exn + (datetime list \<times> 'd list)" where
  "get_filtered_data current_time time_range_str dm =
     (if timestamps dm = [] then Inr ([], [])
      else filter_loop (time_limit_of current_time time_range_str) (sensor_data_history dm)
             (enumerate 0 (timestamps dm)) ([], []))"

text \<open>
  The five recognized time ranges as the specification names them, each with its
  length in microseconds.
\<close>

definition recognized_ranges :: "(string \<times> int) list" where
  "recognized_ranges =
     [(''Last 10 minutes'', 10 * 60 * 1000000),
      (''Last 30 minutes'', 30 * 60 * 1000000),
      (''Last hour'', 60 * 60 * 1000000),
      (''Last 6 hours'', 6 * 60 * 60 * 1000000),
      (''Last 24 hours'', 24 * 60 * 60 * 1000000)]"

text \<open>The invariant of the two buffers.\<close>

definition buffers_ok :: "'d DataManager \<Rightarrow> bool" where
  "buffers_ok dm \<longleftrightarrow>
     length (sensor_data_history dm) \<le> maxlen dm \<and>
     length (timestamps dm) = length (sensor_data_history dm)"

text \<open>
  The history as a list of entries, each reading with its timestamp, oldest first, and
  the entries not older than a limit (in the same order).
\<close>

definition entries :: "'d DataManager \<Rightarrow> (datetime \<times> 'd) list" where
  "entries dm = zip (timestamps dm) (sensor_data_history dm)"

definition entries_since :: "datetime \<Rightarrow> 'd DataManager \<Rightarrow> (datetime \<times> 'd) list" where
  "entries_since limit dm = filter (\<lambda>(t, d). t \<ge> limit) (entries dm)"

section \<open>Sparkfun\_Qwiic\_GPS\_NEO-M9N\_SMA\_GPS-17285/gps\_dashboard\_app.py: trip analysis\<close>

text \<open>
  Python floats are modelled by real numbers. \<open>x % m\<close> for a positive modulus \<open>m\<close> is
  \<open>x - m * floor (x / m)\<close>.
\<close>

definition py_mod :: "real \<Rightarrow> real \<Rightarrow> real" where
  "py_mod x m = x - m * of_int \<lfloor>x / m\<rfloor>"

text \<open>The constants of \<open>config.py\<close>.\<close>

definition HARD_BRAKING_THRESHOLD_MPS2 :: real where
  "HARD_BRAKING_THRESHOLD_MPS2 = - 3"

definition SHARP_CORNERING_THRESHOLD_DEG_PER_SEC :: real where
  "SHARP_CORNERING_THRESHOLD_DEG_PER_SEC = 20"

text \<open>A data point: the dictionary with the keys the analysis reads.\<close>

record data_point =
  timestamp :: real
  lat :: real
  lon :: real
  gSpeed :: real
  headMot :: real

text \<open>
  The heading difference of \<open>_analyze_trip_data\<close>: both headings are reduced modulo 360,
  subtracted, and the difference is moved by one turn when it is beyond a half turn.
\<close>

definition heading_diff :: "real \<Rightarrow> real \<Rightarrow> real" where
  "heading_diff prev_headMot current_heading =
     (let prev_heading = py_mod prev_headMot 360;
          current_heading_normalized = py_mod current_heading 360;
          diff = current_heading_normalized - prev_heading
      in if diff > 180 then diff - 360
         else if diff < - 180 then diff + 360
         else diff)"

text \<open>
  The variables that the loop of \<open>_analyze_trip_data\<close> updates, and one iteration of the
  loop. \<open>haversine_distance\<close> (of \<open>utils.py\<close>, trigonometry on floats) and the setting
  \<open>speed_noise_threshold_mps\<close> are parameters; the debug log lines are left out.
\<close>

record trip_acc =
  total_distance :: real
  max_speed :: real
  hard_braking_events :: nat
  sharp_cornering_events :: nat
  prev_dp :: "data_point option"

definition analyze_step ::
  "(real \<Rightarrow> real \<Rightarrow> real \<Rightarrow> real \<Rightarrow> real) \<Rightarrow> real \<Rightarrow> trip_acc \<Rightarrow> data_point \<Rightarrow> trip_acc" where
  "analyze_step haversine_distance speed_noise_threshold acc dp =
     (let current_speed = gSpeed dp;
          current_heading = headMot dp;
          current_time = timestamp dp;
          acc1 = (if current_speed > max_speed acc then acc \<lparr> max_speed := current_speed \<rparr> else acc);
          acc2 =
            (case prev_dp acc1 of
               None \<Rightarrow> acc1
             | Some prev \<Rightarrow>
                 (let acc3 = acc1 \<lparr> total_distance := total_distance acc1 +
                                 haversine_distance (lat prev) (lon prev) (lat dp) (lon dp) \<rparr>;
                      time_diff = current_time - timestamp prev
                  in if time_diff > 0
                     then (let speed_diff = current_speed - gSpeed prev;
                               acceleration = speed_diff / time_diff;
                               acc4 = (if acceleration < HARD_BRAKING_THRESHOLD_MPS2
                                       then acc3 \<lparr> hard_braking_events := hard_braking_events acc3 + 1 \<rparr>
                                       else acc3);
                               diff = heading_diff (headMot prev) current_heading
                           in if current_speed > speed_noise_threshold
                              then (let angular_velocity_deg_per_sec =
                                          (if time_diff > 0 then \<bar>diff / time_diff\<bar> else 0)
                                    in if angular_velocity_deg_per_sec > SHARP_CORNERING_THRESHOLD_DEG_PER_SEC
                                       then acc4 \<lparr> sharp_cornering_events := sharp_cornering_events acc4 + 1 \<rparr>
                                       else acc4)
                              else acc4)
                     else acc3))
      in acc2 \<lparr> prev_dp := Some dp \<rparr>)"

text \<open>
  The whole analysis: the zeroed result for no data points, otherwise the loop over all
  points and the average over the points faster than the noise threshold. The duration
  is kept as the number of seconds (its rendering as a string is not modelled).
\<close>

record trip_result =
  res_total_distance :: real
  res_duration_seconds :: real
  res_average_speed :: real
  res_max_speed :: real
  res_hard_braking_events :: nat
  res_sharp_cornering_events :: nat

definition analyze_trip_data ::
  "(real \<Rightarrow> real \<Rightarrow> real \<Rightarrow> real \<Rightarrow> real) \<Rightarrow> real \<Rightarrow> data_point list \<Rightarrow> trip_result" where
  "analyze_trip_data haversine_distance speed_noise_threshold data_points =
     (let moving_speed_points = map gSpeed (filter (\<lambda>dp. gSpeed dp > speed_noise_threshold) data_points)
      in if data_points = []
         then \<lparr> res_total_distance = 0, res_duration_seconds = 0, res_average_speed = 0,
                res_max_speed = 0, res_hard_braking_events = 0, res_sharp_cornering_events = 0 \<rparr>
         else (let duration_seconds = timestamp (last data_points) - timestamp (hd data_points);
                   acc = foldl (analyze_step haversine_distance speed_noise_threshold)
                           \<lparr> total_distance = 0, max_speed = 0, hard_braking_events = 0,
                             sharp_cornering_events = 0, prev_dp = None \<rparr> data_points;
                   average_speed = (if moving_speed_points \<noteq> []
                                    then sum_list moving_speed_points / real (length moving_speed_points)
                                    else 0)
               in \<lparr> res_total_distance = total_distance acc, res_duration_seconds = duration_seconds,
                    res_average_speed = average_speed, res_max_speed = max_speed acc,
                    res_hard_braking_events = hard_braking_events acc,
                    res_sharp_cornering_events = sharp_cornering_events acc \<rparr>))"

text \<open>The shorter of the two arcs between two headings already reduced modulo 360.\<close>

definition smaller_arc :: "real \<Rightarrow> real \<Rightarrow> real" where
  "smaller_arc a b = min \<bar>b - a\<bar> (360 - \<bar>b - a\<bar>)"

section \<open>Qwiic\_SensorsQT/sensor\_interface.py and Qwiic\_Sensors/sensor\_interface.py\<close>

text \<open>
  A metric value is a number or the sentinel \<open>float('nan')\<close>. The dictionary of one
  sensor and the dictionary of all sensors are association lists in insertion order. A
  status message is its text with its colour.
\<close>

datatype reading = NaN | Num real

type_synonym metrics = "(string \<times> reading) list"

type_synonym sensor_data = "(string \<times> metrics) list"

type_synonym status = "string \<times> string"

subsection \<open>The random module\<close>

text \<open>
  The generator is a stream of raw numbers with a position; nothing is assumed about
  the stream. \<open>random()\<close> makes a float \<open>k / 2^53\<close> out of 53 raw bits,
  \<open>uniform(a, b)\<close> is \<open>a + (b - a) * random()\<close>, and \<open>randint(a, b)\<close> (called with
  \<open>a \<le> b\<close> only) adds to \<open>a\<close> a raw number reduced below \<open>b - a + 1\<close>.
\<close>

record rng_state =
  raw :: "nat \<Rightarrow> nat"
  pos :: nat

definition py_random :: "rng_state \<Rightarrow> real \<times> rng_state" where
  "py_random g = (real (raw g (pos g) mod 2 ^ 53) / 2 ^ 53, g \<lparr> pos := Suc (pos g) \<rparr>)"

definition uniform :: "real \<Rightarrow> real \<Rightarrow> rng_state \<Rightarrow> real \<times> rng_state" where
  "uniform a b g = (let (u, g') = py_random g in (a + (b - a) * u, g'))"

definition randint :: "int \<Rightarrow> int \<Rightarrow> rng_state \<Rightarrow> int \<times> rng_state" where
  "randint a b g = (a + int (raw g (pos g) mod nat (b - a + 1)), g \<lparr> pos := Suc (pos g) \<rparr>)"

subsection \<open>The hardware\<close>

text \<open>
  A sensor object is given by what each of its read calls does during one poll: it
  returns a value (\<open>Inr\<close>) or raises an exception with a message (\<open>Inl\<close>).
\<close>

record bme_dev =
  get_temperature_celsius :: "string + reading"
  read_humidity :: "string + reading"
  read_pressure :: "string + reading"
  get_altitude_feet :: "string + reading"
  get_temperature_fahrenheit :: "string + reading"
  get_dewpoint_celsius :: "string + reading"
  get_dewpoint_fahrenheit :: "string + reading"

record sgp_dev =
  get_VOC_index :: "string + reading"

record sht_dev =
  temperature :: "string + reading"
  relative_humidity :: "string + reading"

record prox_dev =
  get_proximity :: "string + reading"
  get_ambient :: "string + reading"
  get_white :: "string + reading"

text \<open>
  The body of each \<open>try\<close> block of \<open>read_all_sensors\<close>: the calls are made in the order
  of the source, and the first one that raises ends the block with its exception.
\<close>

definition try_bme280 :: "bme_dev \<Rightarrow> string + metrics" where
  "try_bme280 d =
     (case get_temperature_celsius d of Inl e \<Rightarrow> Inl e | Inr temp_c \<Rightarrow>
      case read_humidity d of Inl e \<Rightarrow> Inl e | Inr humidity \<Rightarrow>
      case read_pressure d of Inl e \<Rightarrow> Inl e | Inr pressure \<Rightarrow>
      case get_altitude_feet d of Inl e \<Rightarrow> Inl e | Inr altitude \<Rightarrow>
      case get_temperature_fahrenheit d of Inl e \<Rightarrow> Inl e | Inr temp_f \<Rightarrow>
      case get_dewpoint_celsius d of Inl e \<Rightarrow> Inl e | Inr dewpoint_c \<Rightarrow>
      case get_dewpoint_fahrenheit d of Inl e \<Rightarrow> Inl e | Inr dewpoint_f \<Rightarrow>
        Inr [(''temp_c'', temp_c), (''humidity'', humidity), (''pressure'', pressure),
             (''altitude'', altitude), (''temp_f'', temp_f), (''dewpoint_c'', dewpoint_c),
             (''dewpoint_f'', dewpoint_f)])"

definition try_sgp40 :: "sgp_dev \<Rightarrow> string + metrics" where
  "try_sgp40 d =
     (case get_VOC_index d of Inl e \<Rightarrow> Inl e | Inr voc_index \<Rightarrow> Inr [(''voc_index'', voc_index)])"

definition try_shtc3 :: "sht_dev \<Rightarrow> string + metrics" where
  "try_shtc3 d =
     (case temperature d of Inl e \<Rightarrow> Inl e | Inr t \<Rightarrow>
      case relative_humidity d of Inl e \<Rightarrow> Inl e | Inr h \<Rightarrow>
        Inr [(''temperature'', t), (''humidity'', h)])"

definition try_proximity :: "prox_dev \<Rightarrow> string + metrics" where
  "try_proximity d =
     (case get_proximity d of Inl e \<Rightarrow> Inl e | Inr prox_value \<Rightarrow>
      case get_ambient d of Inl e \<Rightarrow> Inl e | Inr light_value \<Rightarrow>
      case get_white d of Inl e \<Rightarrow> Inl e | Inr white_value \<Rightarrow>
        Inr [(''proximity'', prox_value), (''ambient_light'', light_value),
             (''white_light'', white_value)])"

text \<open>The dictionaries of NaN, and the mock dictionaries with their random draws.\<close>

definition nan_bme280 :: metrics where
  "nan_bme280 = map (\<lambda>k. (k, NaN))
     [''temp_c'', ''humidity'', ''pressure'', ''altitude'', ''temp_f'', ''dewpoint_c'', ''dewpoint_f'']"

definition nan_sgp40 :: metrics where
  "nan_sgp40 = [(''voc_index'', NaN)]"

definition nan_shtc3 :: metrics where
  "nan_shtc3 = [(''temperature'', NaN), (''humidity'', NaN)]"

definition nan_proximity :: metrics where
  "nan_proximity = [(''proximity'', NaN), (''ambient_light'', NaN), (''white_light'', NaN)]"

definition mock_bme280 :: "rng_state \<Rightarrow> metrics \<times> rng_state" where
  "mock_bme280 g0 =
     (let (temp_c, g1) = uniform 20 30 g0;
          (humidity, g2) = uniform 40 60 g1;
          (pressure, g3) = uniform 900 1100 g2;
          (altitude, g4) = uniform 500 1500 g3;
          (temp_f, g5) = uniform 68 86 g4;
          (dewpoint_c, g6) = uniform 10 20 g5;
          (dewpoint_f, g7) = uniform 50 68 g6
      in ([(''temp_c'', Num temp_c), (''humidity'', Num humidity), (''pressure'', Num pressure),
           (''altitude'', Num altitude), (''temp_f'', Num temp_f), (''dewpoint_c'', Num dewpoint_c),
           (''dewpoint_f'', Num dewpoint_f)], g7))"

definition mock_sgp40 :: "rng_state \<Rightarrow> metrics \<times> rng_state" where
  "mock_sgp40 g0 = (let (voc_index, g1) = uniform 0 500 g0 in ([(''voc_index'', Num voc_index)], g1))"

definition mock_shtc3 :: "rng_state \<Rightarrow> metrics \<times> rng_state" where
  "mock_shtc3 g0 =
     (let (t, g1) = uniform 20 30 g0;
          (h, g2) = uniform 40 60 g1
      in ([(''temperature'', Num t), (''humidity'', Num h)], g2))"

definition mock_proximity :: "rng_state \<Rightarrow> metrics \<times> rng_state" where
  "mock_proximity g0 =
     (let (p, g1) = randint 0 255 g0;
          (a, g2) = randint 0 1023 g1;
          (w, g3) = randint 0 1023 g2
      in ([(''proximity'', Num (of_int p)), (''ambient_light'', Num (of_int a)),
           (''white_light'', Num (of_int w))], g3))"

subsection \<open>The PyQt5 interface\<close>

text \<open>
  The attributes of a \<open>SensorInterface\<close>: the four sensor objects (or \<open>None\<close>) and, in
  the PyQt5 variant, the mock flag. \<open>read_all_sensors\<close> returns the status messages it
  emits, the dictionary, and the generator after its draws.
\<close>

record sensor_objects =
  bme :: "bme_dev option"
  sgp :: "sgp_dev option"
  prox :: "prox_dev option"
  sht :: "sht_dev option"

record qt_interface = sensor_objects +
  use_mock_data :: bool

definition read_block ::
  "'dev option \<Rightarrow> ('dev \<Rightarrow> string + metrics) \<Rightarrow> string \<Rightarrow> string \<Rightarrow> metrics \<Rightarrow> status list \<times> metrics" where
  "read_block dev try_read label colour nan_dict =
     (case dev of
        Some d \<Rightarrow>
          (case try_read d of
             Inr m \<Rightarrow> ([], m)
           | Inl e \<Rightarrow> ([(label @ '' read error: '' @ e, colour)], nan_dict))
      | None \<Rightarrow> ([], nan_dict))"

definition read_all_sensors_qt ::
  "'a qt_interface_scheme \<Rightarrow> rng_state \<Rightarrow> (status list \<times> sensor_data) \<times> rng_state" where
  "read_all_sensors_qt self g0 =
     (if use_mock_data self
      then (let (b, g1) = mock_bme280 g0;
                (v, g2) = mock_sgp40 g1;
                (t, g3) = mock_shtc3 g2;
                (p, g4) = mock_proximity g3
            in (([], [(''bme280'', b), (''sgp40'', v), (''shtc3'', t), (''proximity'', p)]), g4))
      else (let (s1, b) = read_block (bme self) try_bme280 ''BME280'' ''warning'' nan_bme280;
                (s2, v) = read_block (sgp self) try_sgp40 ''SGP40'' ''warning'' nan_sgp40;
                (s3, t) = read_block (sht self) try_shtc3 ''SHTC3'' ''warning'' nan_shtc3;
                (s4, p) = read_block (prox self) try_proximity ''Proximity'' ''warning'' nan_proximity
            in ((s1 @ s2 @ s3 @ s4,
                 [(''bme280'', b), (''sgp40'', v), (''shtc3'', t), (''proximity'', p)]), g0)))"

text \<open>Any number of polls of one interface, each with the generator the previous one left.\<close>

fun polls_qt :: "nat \<Rightarrow> 'a qt_interface_scheme \<Rightarrow> rng_state \<Rightarrow> sensor_data list" where
  "polls_qt 0 self g = []"
| "polls_qt (Suc n) self g =
     (let ((msgs, data), g') = read_all_sensors_qt self g in data # polls_qt n self g')"

subsection \<open>The Tkinter interface\<close>

text \<open>
  The module-level names of \<open>Qwiic_Sensors/sensor_interface.py\<close>: the flag
  \<open>SENSORS_AVAILABLE\<close>, the four library modules (\<open>None\<close> when not imported) and the I2C
  bus. A module is given by what constructing and starting its sensor does: it raises, or
  it gives the sensor object together with its \<open>connected\<close> flag (for the SGP40, the
  result of \<open>begin()\<close>). The SHTC3 constructor can raise a \<open>ValueError\<close> or another
  exception, which \<open>_initialize_sensors\<close> tells apart.
\<close>

record tk_globals =
  SENSORS_AVAILABLE :: bool
  qwiic_bme280 :: "(exn + bool \<times> bme_dev) option"
  qwiic_sgp40 :: "(exn + int \<times> sgp_dev) option"
  qwiic_proximity :: "(exn + bool \<times> prox_dev) option"
  adafruit_shtc3 :: "(exn + sht_dev) option"
  I2C_BUS :: bool

definition init_connected ::
  "tk_globals \<Rightarrow> (exn + bool \<times> 'dev) option \<Rightarrow> string \<Rightarrow> string \<Rightarrow> exn + (status list \<times> 'dev option)" where
  "init_connected glob lib label long_label =
     (case (if SENSORS_AVAILABLE glob then lib else None) of
        Some ctor \<Rightarrow>
          (case ctor of
             Inl e \<Rightarrow> Inl e
           | Inr (is_connected, d) \<Rightarrow>
               if \<not> is_connected then Inr ([(long_label @ '' not connected!'', ''red'')], None)
               else Inr ([(long_label @ '' connected.'', ''green'')], Some d))
      | None \<Rightarrow>
          if \<not> SENSORS_AVAILABLE glob
          then Inr ([(label @ '' library not found (mocking).'', ''red'')], None)
          else Inr ([(label @ '' sensor object not created.'', ''orange'')], None))"

definition init_sgp40 :: "tk_globals \<Rightarrow> exn + (status list \<times> sgp_dev option)" where
  "init_sgp40 glob =
     (case (if SENSORS_AVAILABLE glob then qwiic_sgp40 glob else None) of
        Some ctor \<Rightarrow>
          (case ctor of
             Inl e \<Rightarrow> Inl e
           | Inr (begin_result, d) \<Rightarrow>
               if begin_result \<noteq> 0 then Inr ([(''SGP40 not connected!'', ''red'')], None)
               else Inr ([(''SGP40 connected.'', ''green'')], Some d))
      | None \<Rightarrow>
          if \<not> SENSORS_AVAILABLE glob
          then Inr ([(''SGP40 library not found (mocking).'', ''red'')], None)
          else Inr ([(''SGP40 sensor object not created.'', ''orange'')], None))"

definition init_shtc3 :: "tk_globals \<Rightarrow> status list \<times> sht_dev option" where
  "init_shtc3 glob =
     (case (if I2C_BUS glob \<and> SENSORS_AVAILABLE glob then adafruit_shtc3 glob else None) of
        Some ctor \<Rightarrow>
          (case ctor of
             Inr d \<Rightarrow> ([(''SHTC3 connected.'', ''green'')], Some d)
           | Inl e \<Rightarrow>
               (case e of
                  ValueError m \<Rightarrow> ([(''SHTC3 not found on I2C bus!'', ''red'')], None)
                | _ \<Rightarrow> ([(''SHTC3 init error: '' @ exn_message e, ''red'')], None)))
      | None \<Rightarrow>
          if \<not> SENSORS_AVAILABLE glob
          then ([(''SHTC3 library or I2C bus not found (mocking).'', ''red'')], None)
          else ([(''SHTC3 sensor object not created.'', ''orange'')], None))"

text \<open>
  \<open>__init__\<close> with \<open>_initialize_sensors\<close>: the four attributes start as \<open>None\<close>; an
  exception of the BME280, SGP40 or proximity constructor is not caught.
\<close>

definition SensorInterface_init_tk :: "tk_globals \<Rightarrow> exn + (status list \<times> sensor_objects)" where
  "SensorInterface_init_tk glob =
     (case init_connected glob (qwiic_bme280 glob) ''BME280'' ''BME280'' of
        Inl e \<Rightarrow> Inl e
      | Inr (s1, b) \<Rightarrow>
     (case init_sgp40 glob of
        Inl e \<Rightarrow> Inl e
      | Inr (s2, v) \<Rightarrow>
     (case init_connected glob (qwiic_proximity glob) ''Proximity'' ''Proximity sensor'' of
        Inl e \<Rightarrow> Inl e
      | Inr (s3, p) \<Rightarrow>
     (let (s4, t) = init_shtc3 glob
      in Inr (s1 @ s2 @ s3 @ s4, \<lparr> bme = b, sgp = v, prox = p, sht = t \<rparr>)))))"

definition read_block_tk ::
  "tk_globals \<Rightarrow> 'dev option \<Rightarrow> ('dev \<Rightarrow> string + metrics) \<Rightarrow> string \<Rightarrow> metrics
     \<Rightarrow> (rng_state \<Rightarrow> metrics \<times> rng_state) \<Rightarrow> rng_state \<Rightarrow> (status list \<times> metrics) \<times> rng_state" where
  "read_block_tk glob dev try_read label nan_dict mock g =
     (case dev of
        Some d \<Rightarrow>
          (case try_read d of
             Inr m \<Rightarrow> (([], m), g)
           | Inl e \<Rightarrow> (([(label @ '' read error: '' @ e, ''orange'')], nan_dict), g))
      | None \<Rightarrow>
          if \<not> SENSORS_AVAILABLE glob
          then (let (m, g') = mock g in (([], m), g'))
          else (([], nan_dict), g))"

definition read_all_sensors_tk ::
  "tk_globals \<Rightarrow> 'a sensor_objects_scheme \<Rightarrow> rng_state \<Rightarrow> (status list \<times> sensor_data) \<times> rng_state" where
  "read_all_sensors_tk glob self g0 =
     (let ((s1, b), g1) = read_block_tk glob (bme self) try_bme280 ''BME280'' nan_bme280 mock_bme280 g0;
          ((s2, v), g2) = read_block_tk glob (sgp self) try_sgp40 ''SGP40'' nan_sgp40 mock_sgp40 g1;
          ((s3, t), g3) = read_block_tk glob (sht self) try_shtc3 ''SHTC3'' nan_shtc3 mock_shtc3 g2;
          ((s4, p), g4) = read_block_tk glob (prox self) try_proximity ''Proximity'' nan_proximity mock_proximity g3
      in ((s1 @ s2 @ s3 @ s4,
           [(''bme280'', b), (''sgp40'', v), (''shtc3'', t), (''proximity'', p)]), g4))"

fun polls_tk :: "nat \<Rightarrow> tk_globals \<Rightarrow> 'a sensor_objects_scheme \<Rightarrow> rng_state \<Rightarrow> sensor_data list" where
  "polls_tk 0 glob self g = []"
| "polls_tk (Suc n) glob self g =
     (let ((msgs, data), g') = read_all_sensors_tk glob self g in data # polls_tk n glob self g')"

subsection \<open>Vocabulary of the properties\<close>

text \<open>
  The four sensors with the metrics of each, the label each has in the status messages,
  and what the \<open>try\<close> block of a sensor does in this poll (\<open>None\<close> when the sensor object
  is \<open>None\<close> and no read is made).
\<close>

definition sensor_names :: "string list" where
  "sensor_names = [''bme280'', ''sgp40'', ''shtc3'', ''proximity'']"

definition metric_names :: "string \<Rightarrow> string list" where
  "metric_names name =
     (if name = ''bme280''
      then [''temp_c'', ''humidity'', ''pressure'', ''altitude'', ''temp_f'', ''dewpoint_c'', ''dewpoint_f'']
      else if name = ''sgp40'' then [''voc_index'']
      else if name = ''shtc3'' then [''temperature'', ''humidity'']
      else if name = ''proximity'' then [''proximity'', ''ambient_light'', ''white_light'']
      else [])"

definition sensor_label :: "string \<Rightarrow> string" where
  "sensor_label name =
     (if name = ''bme280'' then ''BME280''
      else if name = ''sgp40'' then ''SGP40''
      else if name = ''shtc3'' then ''SHTC3''
      else if name = ''proximity'' then ''Proximity''
      else [])"

definition hardware_read :: "'a sensor_objects_scheme \<Rightarrow> string \<Rightarrow> (string + metrics) option" where
  "hardware_read self name =
     (if name = ''bme280'' then map_option try_bme280 (bme self)
      else if name = ''sgp40'' then map_option try_sgp40 (sgp self)
      else if name = ''shtc3'' then map_option try_shtc3 (sht self)
      else if name = ''proximity'' then map_option try_proximity (prox self)
      else None)"

text \<open>A metric of a dictionary is a number within bounds; the documented mock ranges.\<close>

definition metric_in :: "sensor_data \<Rightarrow> string \<Rightarrow> string \<Rightarrow> real \<Rightarrow> real \<Rightarrow> bool" where
  "metric_in data name metric lo hi =
     (case map_of data name of
        None \<Rightarrow> False
      | Some m \<Rightarrow> (case map_of m metric of Some (Num v) \<Rightarrow> lo \<le> v \<and> v \<le> hi | _ \<Rightarrow> False))"

definition within_mock_ranges :: "sensor_data \<Rightarrow> bool" where
  "within_mock_ranges data \<longleftrightarrow>
     metric_in data ''bme280'' ''temp_c'' 20 30 \<and>
     metric_in data ''bme280'' ''humidity'' 40 60 \<and>
     metric_in data ''bme280'' ''pressure'' 900 1100 \<and>
     metric_in data ''bme280'' ''altitude'' 500 1500 \<and>
     metric_in data ''sgp40'' ''voc_index'' 0 500 \<and>
     metric_in data ''shtc3'' ''temperature'' 20 30 \<and>
     metric_in data ''shtc3'' ''humidity'' 40 60 \<and>
     metric_in data ''proximity'' ''proximity'' 0 255 \<and>
     metric_in data ''proximity'' ''ambient_light'' 0 1023 \<and>
     metric_in data ''proximity'' ''white_light'' 0 1023"

text \<open>
  What a poll gives for a sensor whose read raised \<open>e\<close>: the entry of the sensor maps
  each of its metrics to NaN, a status message with the text of the exception was
  emitted in the given colour, and the dictionary has an entry for each sensor.
\<close>

definition failed_read_reported :: "status list \<times> sensor_data \<Rightarrow> string \<Rightarrow> string \<Rightarrow> string \<Rightarrow> bool" where
  "failed_read_reported out name e colour \<longleftrightarrow>
     map_of (snd out) name = Some (map (\<lambda>k. (k, NaN)) (metric_names name)) \<and>
     (sensor_label name @ '' read error: '' @ e, colour) \<in> set (fst out) \<and>
     map fst (snd out) = sensor_names"

text \<open>
  An example: a BME280 whose temperature and humidity reads succeed and whose pressure
  read raises; the other sensors absent.
\<close>

definition bme_pressure_fails :: bme_dev where
  "bme_pressure_fails =
     \<lparr> get_temperature_celsius = Inr (Num 21), read_humidity = Inr (Num 45),
       read_pressure = Inl ''I2C timeout'', get_altitude_feet = Inr (Num 600),
       get_temperature_fahrenheit = Inr (Num 70), get_dewpoint_celsius = Inr (Num 11),
       get_dewpoint_fahrenheit = Inr (Num 52) \<rparr>"

section \<open>Qwiic\_SensorsQT/data\_logger.py\<close>

subsection \<open>Files, clock and faults\<close>

text \<open>
  A path is the list of its components (\<open>os.path.join\<close> appends one). A CSV file is the
  list of the rows written to it; a cell is a string or a reading. A file object has the
  path it was opened with and its closed flag. The file system (regular files only), the
  status messages emitted so far and the attributes of the \<open>DataLogger\<close> make up the
  state. The debug log is not modelled.
\<close>

type_synonym path = "string list"

datatype cell = Str string | Val reading

type_synonym row = "cell list"

record file_obj =
  f_name :: path
  f_closed :: bool

record logger =
  log_path_internal :: path
  archive_path_internal :: path
  archive_enabled_internal :: bool
  log_settings_internal :: "(string \<times> bool) list"
  active_log_file_handles :: "(string \<times> file_obj) list"
  last_archive_time :: datetime
  archive_interval_hours :: int
  fs :: "path \<Rightarrow> row list option"
  emitted :: "status list"

text \<open>
  What \<open>datetime.datetime.now()\<close> gives during one call of the logger: the instant and
  its renderings by \<open>strftime("%Y-%m-%d")\<close>, \<open>isoformat()\<close> and
  \<open>strftime("%Y%m%d_%H%M%S")\<close>.
\<close>

record clock =
  clock_now :: datetime
  clock_today :: string
  clock_iso :: string
  clock_stamp :: string

text \<open>
  The faults of the file system during one call: for a path, the message of the
  exception that the operation raises there, or \<open>None\<close> when it succeeds.
\<close>

record io_env =
  makedirs_fails :: "path \<Rightarrow> string option"
  open_fails :: "path \<Rightarrow> string option"
  write_fails :: "path \<Rightarrow> string option"
  close_fails :: "path \<Rightarrow> string option"
  move_fails :: "path \<Rightarrow> string option"

definition path_str :: "path \<Rightarrow> string" where
  "path_str p = concat (map (\<lambda>c. ''/'' @ c) p)"

definition basename :: "path \<Rightarrow> string" where
  "basename p = (if p = [] then [] else last p)"

definition emit :: "string \<Rightarrow> string \<Rightarrow> logger \<Rightarrow> logger" where
  "emit message colour self = self \<lparr> emitted := emitted self @ [(message, colour)] \<rparr>"

text \<open>\<open>del d[k]\<close> on the dictionary of handles: a \<open>KeyError\<close> when the key is absent.\<close>

definition del_handle :: "string \<Rightarrow> logger \<Rightarrow> exn option \<times> logger" where
  "del_handle sensor_name self =
     (if map_of (active_log_file_handles self) sensor_name = None
      then (Some (KeyError sensor_name), self)
      else (None, self \<lparr> active_log_file_handles :=
                          AList.delete sensor_name (active_log_file_handles self) \<rparr>))"

subsection \<open>Opening a log file\<close>

definition csv_path :: "path \<Rightarrow> string \<Rightarrow> string \<Rightarrow> path" where
  "csv_path log_path sensor_name today = log_path @ [sensor_name, sensor_name @ ''_'' @ today @ ''.csv'']"

definition csv_header :: "string \<Rightarrow> row option" where
  "csv_header sensor_name =
     (if sensor_name = ''bme280''
      then Some (map Str [''timestamp'', ''temperature_c'', ''humidity'', ''pressure_pa'', ''altitude_m'',
                          ''temperature_f'', ''dewpoint_c'', ''dewpoint_f''])
      else if sensor_name = ''sgp40'' then Some (map Str [''timestamp'', ''voc_index''])
      else if sensor_name = ''shtc3'' then Some (map Str [''timestamp'', ''temperature_c'', ''humidity''])
      else if sensor_name = ''proximity''
      then Some (map Str [''timestamp'', ''proximity'', ''ambient_light'', ''white_light''])
      else None)"

text \<open>The \<open>except\<close> branch of \<open>_open_log_file\<close>.\<close>

definition open_failed :: "string \<Rightarrow> exn \<Rightarrow> logger \<Rightarrow> logger" where
  "open_failed sensor_name e self =
     (let s1 = emit (''Error opening/creating log file for '' @ sensor_name @ '': '' @ exn_message e)
                 ''danger'' self
      in s1 \<lparr> active_log_file_handles := AList.delete sensor_name (active_log_file_handles s1) \<rparr>)"

text \<open>
  \<open>_open_log_file\<close> from the test \<open>os.path.exists(file_path)\<close> on: the \<open>try\<close> block opens
  the file (mode \<open>w\<close> creates it empty), writes the header into a new file and stores the
  handle; any exception goes to the \<open>except\<close> branch.
\<close>

definition open_new :: "io_env \<Rightarrow> string \<Rightarrow> path \<Rightarrow> logger \<Rightarrow> logger" where
  "open_new env sensor_name file_path self =
     (let file_exists = (fs self file_path \<noteq> None);
          f = \<lparr> f_name = file_path, f_closed = False \<rparr>
      in case open_fails env file_path of
           Some m \<Rightarrow> open_failed sensor_name (OSError m) self
         | None \<Rightarrow>
             if \<not> file_exists
             then (let s1 = self \<lparr> fs := (fs self)(file_path \<mapsto> []) \<rparr>
                   in case csv_header sensor_name of
                        None \<Rightarrow>
                          s1 \<lparr> active_log_file_handles :=
                                 AList.update sensor_name f (active_log_file_handles s1) \<rparr>
                      | Some header \<Rightarrow>
                          (case write_fails env file_path of
                             Some m \<Rightarrow> open_failed sensor_name (OSError m) s1
                           | None \<Rightarrow>
                               s1 \<lparr> fs := (fs s1)(file_path \<mapsto> [header]),
                                    active_log_file_handles :=
                                      AList.update sensor_name f (active_log_file_handles s1) \<rparr>))
             else self \<lparr> active_log_file_handles :=
                          AList.update sensor_name f (active_log_file_handles self) \<rparr>)"

text \<open>
  \<open>_open_log_file\<close>: \<open>os.makedirs\<close> and the closing of a handle for another day are
  outside the \<open>try\<close> block, so their exceptions leave the method.
\<close>

definition open_log_file :: "clock \<Rightarrow> io_env \<Rightarrow> string \<Rightarrow> logger \<Rightarrow> exn option \<times> logger" where
  "open_log_file clk env sensor_name self =
     (let log_dir = log_path_internal self @ [sensor_name];
          file_path = csv_path (log_path_internal self) sensor_name (clock_today clk)
      in case makedirs_fails env log_dir of
           Some m \<Rightarrow> (Some (OSError m), self)
         | None \<Rightarrow>
             (case map_of (active_log_file_handles self) sensor_name of
                Some existing \<Rightarrow>
                  if f_name existing \<noteq> file_path
                  then (case close_fails env (f_name existing) of
                          Some m \<Rightarrow> (Some (OSError m), self)
                        | None \<Rightarrow>
                            (None, open_new env sensor_name file_path
                               (self \<lparr> active_log_file_handles :=
                                         AList.update sensor_name (existing \<lparr> f_closed := True \<rparr>)
                                           (active_log_file_handles self) \<rparr>)))
                  else (None, self)
              | None \<Rightarrow> (None, open_new env sensor_name file_path self)))"

fun open_enabled :: "clock \<Rightarrow> io_env \<Rightarrow> (string \<times> bool) list \<Rightarrow> logger \<Rightarrow> exn option \<times> logger" where
  "open_enabled clk env [] self = (None, self)"
| "open_enabled clk env ((sensor_name, enabled) # rest) self =
     (if enabled
      then (case open_log_file clk env sensor_name self of
              (Some e, s1) \<Rightarrow> (Some e, s1)
            | (None, s1) \<Rightarrow> open_enabled clk env rest s1)
      else open_enabled clk env rest self)"

definition open_initial_log_files :: "clock \<Rightarrow> io_env \<Rightarrow> logger \<Rightarrow> exn option \<times> logger" where
  "open_initial_log_files clk env self = open_enabled clk env (log_settings_internal self) self"

subsection \<open>Archiving\<close>

text \<open>
  One iteration of the loop of \<open>archive_logs\<close>. The \<open>try\<close> block closes the file, moves
  it into the archive directory (\<open>shutil.move\<close> raises when the file is not there) and
  deletes the handle; the \<open>except\<close> branch emits a message; the \<open>finally\<close> branch deletes
  the handle, in every case.
\<close>

definition archive_try :: "io_env \<Rightarrow> path \<Rightarrow> string \<Rightarrow> file_obj \<Rightarrow> logger \<Rightarrow> exn option \<times> logger" where
  "archive_try env destination_dir sensor_name file_info self =
     (case close_fails env (f_name file_info) of
        Some m \<Rightarrow> (Some (OSError m), self)
      | None \<Rightarrow>
          (let s1 = self \<lparr> active_log_file_handles :=
                             AList.update sensor_name (file_info \<lparr> f_closed := True \<rparr>)
                               (active_log_file_handles self) \<rparr>;
               original_path = f_name file_info;
               archive_file_path = destination_dir @ [basename original_path]
           in case fs s1 original_path of
                None \<Rightarrow> (Some (OSError ''No such file or directory''), s1)
              | Some rows \<Rightarrow>
                  (case move_fails env original_path of
                     Some m \<Rightarrow> (Some (OSError m), s1)
                   | None \<Rightarrow>
                       del_handle sensor_name
                         (s1 \<lparr> fs := ((fs s1)(original_path := None))(archive_file_path \<mapsto> rows) \<rparr>))))"

definition archive_one :: "io_env \<Rightarrow> path \<Rightarrow> string \<Rightarrow> logger \<Rightarrow> exn option \<times> logger" where
  "archive_one env destination_dir sensor_name self =
     (case map_of (active_log_file_handles self) sensor_name of
        None \<Rightarrow> (Some (KeyError sensor_name), self)
      | Some file_info \<Rightarrow>
          (case archive_try env destination_dir sensor_name file_info self of
             (None, s1) \<Rightarrow> del_handle sensor_name s1
           | (Some e, s1) \<Rightarrow>
               del_handle sensor_name
                 (emit (''Error archiving log file for '' @ sensor_name @ '': '' @ exn_message e)
                    ''danger'' s1)))"

fun archive_each :: "io_env \<Rightarrow> path \<Rightarrow> string list \<Rightarrow> logger \<Rightarrow> exn option \<times> logger" where
  "archive_each env destination_dir [] self = (None, self)"
| "archive_each env destination_dir (sensor_name # rest) self =
     (case archive_one env destination_dir sensor_name self of
        (Some e, s1) \<Rightarrow> (Some e, s1)
      | (None, s1) \<Rightarrow> archive_each env destination_dir rest s1)"

definition archive_logs :: "clock \<Rightarrow> io_env \<Rightarrow> logger \<Rightarrow> exn option \<times> logger" where
  "archive_logs clk env self =
     (let s1 = emit ''Archiving sensor logs...'' ''info'' self;
          destination_dir = archive_path_internal s1 @ [''archive_'' @ clock_stamp clk]
      in case makedirs_fails env destination_dir of
           Some m \<Rightarrow> (Some (OSError m), s1)
         | None \<Rightarrow>
             (case archive_each env destination_dir (map fst (active_log_file_handles s1)) s1 of
                (Some e, s2) \<Rightarrow> (Some e, s2)
              | (None, s2) \<Rightarrow>
                  open_initial_log_files clk env
                    (emit (''Logs archived to '' @ path_str destination_dir) ''success''
                       (s2 \<lparr> last_archive_time := clock_now clk \<rparr>))))"

definition archive_due :: "clock \<Rightarrow> logger \<Rightarrow> bool" where
  "archive_due clk self \<longleftrightarrow>
     archive_enabled_internal self \<and>
     clock_now clk - last_archive_time self > archive_interval_hours self * 3600 * 1000000"

definition check_and_archive_auto :: "clock \<Rightarrow> io_env \<Rightarrow> logger \<Rightarrow> exn option \<times> logger" where
  "check_and_archive_auto clk env self =
     (if archive_due clk self then archive_logs clk env self else (None, self))"

subsection \<open>Logging a reading\<close>

definition get_or_na :: "metrics \<Rightarrow> string \<Rightarrow> cell" where
  "get_or_na data k = (case map_of data k of Some v \<Rightarrow> Val v | None \<Rightarrow> Str ''N/A'')"

definition csv_row :: "string \<Rightarrow> string \<Rightarrow> metrics \<Rightarrow> row" where
  "csv_row timestamp_str sensor_name data =
     Str timestamp_str #
     (if sensor_name = ''bme280''
      then map (get_or_na data)
             [''temp_c'', ''humidity'', ''pressure'', ''altitude'', ''temp_f'', ''dewpoint_c'', ''dewpoint_f'']
      else if sensor_name = ''sgp40'' then [get_or_na data ''voc_index'']
      else if sensor_name = ''shtc3'' then map (get_or_na data) [''temperature'', ''humidity'']
      else if sensor_name = ''proximity''
      then map (get_or_na data) [''proximity'', ''ambient_light'', ''white_light'']
      else [])"

text \<open>
  \<open>writer.writerow(row)\<close> with the \<open>flush()\<close> after it: on a closed file a \<open>ValueError\<close>;
  otherwise the row is appended to the file the handle was opened on. When no file is at
  that path any more, the row goes to the unlinked file and no file of the file system
  changes.
\<close>

definition write_row :: "io_env \<Rightarrow> file_obj \<Rightarrow> row \<Rightarrow> logger \<Rightarrow> exn option \<times> logger" where
  "write_row env f r self =
     (if f_closed f then (Some (ValueError ''I/O operation on closed file.''), self)
      else case write_fails env (f_name f) of
             Some m \<Rightarrow> (Some (OSError m), self)
           | None \<Rightarrow>
               (None, case fs self (f_name f) of
                        Some rows \<Rightarrow> self \<lparr> fs := (fs self)(f_name f \<mapsto> rows @ [r]) \<rparr>
                      | None \<Rightarrow> self))"

definition log_one :: "clock \<Rightarrow> io_env \<Rightarrow> sensor_data \<Rightarrow> string \<Rightarrow> bool \<Rightarrow> logger \<Rightarrow> exn option \<times> logger" where
  "log_one clk env sensor_readings sensor_name enabled self =
     (if enabled
      then (case (case map_of (active_log_file_handles self) sensor_name of
                    None \<Rightarrow> open_log_file clk env sensor_name self
                  | Some file_info \<Rightarrow> (None, self)) of
              (Some e, s1) \<Rightarrow> (Some e, s1)
            | (None, s1) \<Rightarrow>
                (case map_of (active_log_file_handles s1) sensor_name of
                   Some file_info \<Rightarrow>
                     (let data = (case map_of sensor_readings sensor_name of Some d \<Rightarrow> d | None \<Rightarrow> [])
                      in case write_row env file_info (csv_row (clock_iso clk) sensor_name data) s1 of
                           (None, s2) \<Rightarrow> (None, s2)
                         | (Some e, s2) \<Rightarrow>
                             (None, emit (''Error writing data to CSV for '' @ sensor_name @ '': '' @
                                          exn_message e) ''danger'' s2))
                 | None \<Rightarrow> (None, s1)))
      else (None, self))"

fun log_each :: "clock \<Rightarrow> io_env \<Rightarrow> sensor_data \<Rightarrow> (string \<times> bool) list \<Rightarrow> logger \<Rightarrow> exn option \<times> logger" where
  "log_each clk env sensor_readings [] self = (None, self)"
| "log_each clk env sensor_readings ((sensor_name, enabled) # rest) self =
     (case log_one clk env sensor_readings sensor_name enabled self of
        (Some e, s1) \<Rightarrow> (Some e, s1)
      | (None, s1) \<Rightarrow> log_each clk env sensor_readings rest s1)"

definition log_sensor_data :: "clock \<Rightarrow> io_env \<Rightarrow> sensor_data \<Rightarrow> logger \<Rightarrow> exn option \<times> logger" where
  "log_sensor_data clk env sensor_readings self =
     (case log_each clk env sensor_readings (log_settings_internal self) self of
        (Some e, s1) \<Rightarrow> (Some e, s1)
      | (None, s1) \<Rightarrow> check_and_archive_auto clk env s1)"

subsection \<open>Vocabulary of the properties\<close>

text \<open>
  Between two file systems, every file that was there is still there with its rows,
  possibly followed by more rows.
\<close>

definition fs_grows :: "(path \<Rightarrow> row list option) \<Rightarrow> (path \<Rightarrow> row list option) \<Rightarrow> bool" where
  "fs_grows f g \<longleftrightarrow> (\<forall>p rows. f p = Some rows \<longrightarrow> (\<exists>more. g p = Some (rows @ more)))"

text \<open>The status messages emitted between two states.\<close>

definition emitted_since :: "logger \<Rightarrow> logger \<Rightarrow> status list" where
  "emitted_since a b = drop (length (emitted a)) (emitted b)"

text \<open>
  \<open>log_one\<close> in two steps: the handle is opened when there is none, then the row is
  written through the handle, if there is one now.
\<close>

definition log_write :: "clock \<Rightarrow> io_env \<Rightarrow> sensor_data \<Rightarrow> string \<Rightarrow> logger \<Rightarrow> logger" where
  "log_write clk env sensor_readings sensor_name s1 =
     (case map_of (active_log_file_handles s1) sensor_name of
        Some file_info \<Rightarrow>
          (let data = (case map_of sensor_readings sensor_name of Some d \<Rightarrow> d | None \<Rightarrow> [])
           in case write_row env file_info (csv_row (clock_iso clk) sensor_name data) s1 of
                (None, s2) \<Rightarrow> s2
              | (Some e, s2) \<Rightarrow>
                  emit (''Error writing data to CSV for '' @ sensor_name @ '': '' @ exn_message e) ''danger'' s2)
      | None \<Rightarrow> s1)"

subsection \<open>Example states\<close>

text \<open>
  A file system without faults, one where every \<open>open\<close> is refused, two clocks (the
  second more than a day after the first) and a logger for two sensors that has not
  opened any file yet.
\<close>

definition no_faults :: io_env where
  "no_faults = \<lparr> makedirs_fails = (\<lambda>p. None), open_fails = (\<lambda>p. None), write_fails = (\<lambda>p. None),
                 close_fails = (\<lambda>p. None), move_fails = (\<lambda>p. None) \<rparr>"

definition open_denied :: io_env where
  "open_denied = \<lparr> makedirs_fails = (\<lambda>p. None), open_fails = (\<lambda>p. Some ''Permission denied''),
                   write_fails = (\<lambda>p. None), close_fails = (\<lambda>p. None), move_fails = (\<lambda>p. None) \<rparr>"

definition clock_a :: clock where
  "clock_a = \<lparr> clock_now = 0, clock_today = ''2025-01-01'', clock_iso = ''2025-01-01T00:00:00'',
               clock_stamp = ''20250101_000000'' \<rparr>"

definition clock_b :: clock where
  "clock_b = \<lparr> clock_now = 90000000000, clock_today = ''2025-01-02'', clock_iso = ''2025-01-02T01:00:00'',
               clock_stamp = ''20250102_010000'' \<rparr>"

definition fresh_logger :: logger where
  "fresh_logger = \<lparr> log_path_internal = [''logs''], archive_path_internal = [''archive''],
                    archive_enabled_internal = True,
                    log_settings_internal = [(''bme280'', True), (''sgp40'', True)],
                    active_log_file_handles = [], last_archive_time = 0, archive_interval_hours = 24,
                    fs = Map.empty, emitted = [] \<rparr>"

definition example_readings :: sensor_data where
  "example_readings = [(''bme280'', [(''temp_c'', Num 21), (''humidity'', Num 45)]), (''sgp40'', [(''voc_index'', Num 100)])]"

subsection \<open>Headers of the CSV files\<close>

text \<open>
  A CSV file of a sensor has exactly one header, as its first row. All CSV files of the
  four sensors under the log path are so; and every handle is for a CSV file of its own
  sensor under the log path.
\<close>

definition well_headed :: "string \<Rightarrow> row list \<Rightarrow> bool" where
  "well_headed sensor_name rows \<longleftrightarrow>
     (case csv_header sensor_name of
        None \<Rightarrow> False
      | Some header \<Rightarrow> rows \<noteq> [] \<and> hd rows = header \<and> header \<notin> set (tl rows))"

definition logs_well_headed :: "logger \<Rightarrow> bool" where
  "logs_well_headed self \<longleftrightarrow>
     (\<forall>sensor_name day rows.
        sensor_name \<in> set sensor_names \<and>
        fs self (csv_path (log_path_internal self) sensor_name day) = Some rows
          \<longrightarrow> well_headed sensor_name rows)"

definition handles_in_place :: "logger \<Rightarrow> bool" where
  "handles_in_place self \<longleftrightarrow>
     (\<forall>sensor_name f.
        map_of (active_log_file_handles self) sensor_name = Some f
          \<longrightarrow> (\<exists>day. f_name f = csv_path (log_path_internal self) sensor_name day))"

text \<open>
  Calls of the logger from outside, each with the clock and the faults of its time. A
  caller goes on with the logger as an exception left it.
\<close>

datatype logger_call =
    Call_open_log_file string
  | Call_log_sensor_data sensor_data
  | Call_archive_logs

fun do_call :: "clock \<Rightarrow> io_env \<Rightarrow> logger_call \<Rightarrow> logger \<Rightarrow> exn option \<times> logger" where
  "do_call clk env (Call_open_log_file sensor_name) self = open_log_file clk env sensor_name self"
| "do_call clk env (Call_log_sensor_data sensor_readings) self = log_sensor_data clk env sensor_readings self"
| "do_call clk env Call_archive_logs self = archive_logs clk env self"

fun run_calls :: "(clock \<times> io_env \<times> logger_call) list \<Rightarrow> logger \<Rightarrow> logger" where
  "run_calls [] self = self"
| "run_calls ((clk, env, c) # rest) self = run_calls rest (snd (do_call clk env c self))"

definition no_write_fails :: "(clock \<times> io_env \<times> logger_call) list \<Rightarrow> bool" where
  "no_write_fails calls \<longleftrightarrow> list_all (\<lambda>(clk, env, c). \<forall>p. write_fails env p = None) calls"

text \<open>
  A logger started again on the day of \<open>clock_a\<close>, after an earlier run has created the
  CSV file of the BME280; and three calls on three occasions.
\<close>

definition restarted_logger :: logger where
  "restarted_logger =
     fresh_logger \<lparr> fs := fs (snd (open_log_file clock_a no_faults ''bme280'' fresh_logger)) \<rparr>"

definition example_calls :: "(clock \<times> io_env \<times> logger_call) list" where
  "example_calls =
     [(clock_a, no_faults, Call_open_log_file ''bme280''),
      (clock_a, no_faults, Call_log_sensor_data example_readings),
      (clock_b, no_faults, Call_archive_logs)]"

section \<open>Qwiic\_Sensors/sensor\_reader.py\<close>

text \<open>
  The thread of \<open>SensorReader\<close> sees the rest of the program through three calls, each
  given by the sequence of values it returns: \<open>stop_event.is_set()\<close>,
  \<open>control_queue.get_nowait()\<close> (\<open>None\<close> stands for \<open>queue.Empty\<close>) and \<open>time.time()\<close>.
\<close>

datatype control_message =
    Update_log_settings string string bool "(string \<times> bool) list"
  | Archive_now
  | Update_read_interval int
  | Other_type string

record reader_env =
  stop_at :: "nat \<Rightarrow> bool"
  control_at :: "nat \<Rightarrow> control_message option"
  time_at :: "nat \<Rightarrow> real"

text \<open>
  What the thread does to the other objects is recorded as a trace of events (the calls
  are taken to return). A sensor read carries the number of \<open>is_set()\<close> calls made
  before it.
\<close>

datatype reader_event =
    Ev_update_config string string bool "(string \<times> bool) list"
  | Ev_archive_logs
  | Ev_check_and_archive_auto
  | Ev_read_all_sensors nat
  | Ev_add_data
  | Ev_log_sensor_data
  | Ev_data_put
  | Ev_status string string
  | Ev_sleep real

record reader_state =
  read_interval :: int
  next_read_time :: real
  stop_calls :: nat
  get_calls :: nat
  time_calls :: nat
  trace :: "reader_event list"

definition polling_interval_ms :: real where
  "polling_interval_ms = 100"

definition record_event :: "reader_event \<Rightarrow> reader_state \<Rightarrow> reader_state" where
  "record_event ev st = st \<lparr> trace := trace st @ [ev] \<rparr>"

text \<open>The three calls: each returns the next value of its sequence.\<close>

definition is_set :: "reader_env \<Rightarrow> reader_state \<Rightarrow> bool \<times> reader_state" where
  "is_set env st = (stop_at env (stop_calls st), st \<lparr> stop_calls := Suc (stop_calls st) \<rparr>)"

definition get_nowait :: "reader_env \<Rightarrow> reader_state \<Rightarrow> control_message option \<times> reader_state" where
  "get_nowait env st = (control_at env (get_calls st), st \<lparr> get_calls := Suc (get_calls st) \<rparr>)"

definition time_time :: "reader_env \<Rightarrow> reader_state \<Rightarrow> real \<times> reader_state" where
  "time_time env st = (time_at env (time_calls st), st \<lparr> time_calls := Suc (time_calls st) \<rparr>)"

text \<open>The decimal rendering of an integer in an f-string.\<close>

fun str_nat :: "nat \<Rightarrow> string" where
  "str_nat n = (if n < 10 then [char_of (48 + n)] else str_nat (n div 10) @ [char_of (48 + n mod 10)])"

declare str_nat.simps [simp del]

definition str_int :: "int \<Rightarrow> string" where
  "str_int i = (if i < 0 then ''-'' @ str_nat (nat (- i)) else str_nat (nat i))"

text \<open>The branches on the type of a control message.\<close>

fun process_control :: "control_message \<Rightarrow> reader_state \<Rightarrow> reader_state" where
  "process_control (Update_log_settings log_path_str archive_path_str archive_enabled_bool settings) st =
     record_event (Ev_update_config log_path_str archive_path_str archive_enabled_bool settings) st"
| "process_control Archive_now st = record_event Ev_archive_logs st"
| "process_control (Update_read_interval new_interval) st =
     (if new_interval \<le> 0
      then record_event
             (Ev_status ''Invalid read interval received by thread: Read interval must be a positive integer.''
                ''red'') st
      else record_event
             (Ev_status (''Sensor read interval updated to '' @ str_int new_interval @ '' seconds (thread).'')
                ''green'')
             (st \<lparr> read_interval := new_interval \<rparr>))"
| "process_control (Other_type t) st = st"

text \<open>
  The inner \<open>while True\<close> loop that drains the control queue: it ends with \<open>queue.Empty\<close>
  or, after a message, when the stop event is set. It need not end, so it takes fuel.
\<close>

fun drain :: "nat \<Rightarrow> reader_env \<Rightarrow> reader_state \<Rightarrow> reader_state option" where
  "drain 0 env st = None"
| "drain (Suc fuel) env st =
     (case get_nowait env st of
        (None, st1) \<Rightarrow> Some st1
      | (Some control_message, st1) \<Rightarrow>
          (case is_set env (process_control control_message st1) of
             (True, st2) \<Rightarrow> Some st2
           | (False, st2) \<Rightarrow> drain fuel env st2))"

text \<open>
  The sleep loop: chunks of at most \<open>polling_interval_ms\<close>, the stop event checked before
  each chunk.
\<close>

function sleep_loop :: "reader_env \<Rightarrow> real \<Rightarrow> reader_state \<Rightarrow> reader_state" where
  "sleep_loop env time_to_wait st =
     (if time_to_wait > 0
      then (if \<not> fst (is_set env st)
            then sleep_loop env (time_to_wait - min time_to_wait (polling_interval_ms / 1000))
                   (record_event (Ev_sleep (min time_to_wait (polling_interval_ms / 1000)))
                      (snd (is_set env st)))
            else snd (is_set env st))
      else st)"
  by pat_completeness auto
termination
proof (relation "measure (\<lambda>(env, time_to_wait, st). nat \<lceil>time_to_wait * 10\<rceil>)")
  show "wf (measure (\<lambda>(env, time_to_wait, st). nat \<lceil>time_to_wait * 10\<rceil>))" by simp
next
  fix env :: reader_env and time_to_wait :: real and st :: reader_state
  assume pos: "0 < time_to_wait"
  have "\<lceil>(time_to_wait - min time_to_wait (polling_interval_ms / 1000)) * 10\<rceil> < \<lceil>time_to_wait * 10\<rceil>"
  proof (cases "time_to_wait \<le> 1 / 10")
    case True
    then have "(time_to_wait - min time_to_wait (polling_interval_ms / 1000)) * 10 = 0"
      by (simp add: polling_interval_ms_def min_def)
    moreover have "0 < \<lceil>time_to_wait * 10\<rceil>" using pos by simp
    ultimately show ?thesis by simp
  next
    case False
    then have "(time_to_wait - min time_to_wait (polling_interval_ms / 1000)) * 10 = time_to_wait * 10 - 1"
      by (simp add: polling_interval_ms_def min_def algebra_simps)
    then show ?thesis by (simp add: ceiling_diff_one)
  qed
  moreover have "0 < \<lceil>time_to_wait * 10\<rceil>" using pos by simp
  ultimately show "((env, time_to_wait - min time_to_wait (polling_interval_ms / 1000),
           record_event (Ev_sleep (min time_to_wait (polling_interval_ms / 1000))) (snd (is_set env st))),
          env, time_to_wait, st)
         \<in> measure (\<lambda>(env, time_to_wait, st). nat \<lceil>time_to_wait * 10\<rceil>)"
    by simp
qed

text \<open>
  One pass of the main loop after the control messages: when the read is due, the
  automatic archive check, the stop check and the read with what follows it. The flag
  says whether the pass left the main loop by \<open>break\<close>.
\<close>

definition poll :: "reader_env \<Rightarrow> reader_state \<Rightarrow> bool \<times> reader_state" where
  "poll env st =
     (let (current_time, st1) = time_time env st
      in if current_time \<ge> next_read_time st1
         then (let (stopped, st2) = is_set env (record_event Ev_check_and_archive_auto st1)
               in if stopped then (True, st2)
                  else (False,
                        (record_event Ev_data_put
                          (record_event Ev_log_sensor_data
                            (record_event Ev_add_data
                              (record_event (Ev_read_all_sensors (stop_calls st2)) st2))))
                        \<lparr> next_read_time := current_time + of_int (read_interval st2) \<rparr>))
         else (False, st1))"

definition wait :: "reader_env \<Rightarrow> reader_state \<Rightarrow> reader_state" where
  "wait env st =
     (let (t, st1) = time_time env st;
          time_to_wait = next_read_time st1 - t
      in if time_to_wait > 0 then sleep_loop env time_to_wait st1 else st1)"

text \<open>
  The main loop, with fuel, and \<open>run\<close>: the first \<open>next_read_time\<close>, the loop, and the
  status message after it.
\<close>

fun main_loop :: "nat \<Rightarrow> reader_env \<Rightarrow> reader_state \<Rightarrow> reader_state option" where
  "main_loop 0 env st = None"
| "main_loop (Suc fuel) env st =
     (case is_set env st of
        (True, st1) \<Rightarrow> Some st1
      | (False, st1) \<Rightarrow>
          (case drain (Suc fuel) env st1 of
             None \<Rightarrow> None
           | Some st2 \<Rightarrow>
               (case is_set env st2 of
                  (True, st3) \<Rightarrow> Some st3
                | (False, st3) \<Rightarrow>
                    (case poll env st3 of
                       (True, st4) \<Rightarrow> Some st4
                     | (False, st4) \<Rightarrow> main_loop fuel env (wait env st4)))))"

definition run :: "nat \<Rightarrow> reader_env \<Rightarrow> reader_state \<Rightarrow> reader_state option" where
  "run fuel env st =
     (let (t, st1) = time_time env st
      in map_option (record_event (Ev_status ''Sensor thread stopped.'' ''gray''))
           (main_loop fuel env (st1 \<lparr> next_read_time := t \<rparr>)))"

definition SensorReader_init :: "int \<Rightarrow> reader_state" where
  "SensorReader_init initial_read_interval =
     \<lparr> read_interval = initial_read_interval, next_read_time = 0, stop_calls = 0, get_calls = 0,
       time_calls = 0, trace = [] \<rparr>"

text \<open>
  Once set, the stop event stays set; and the sensor reads of a trace were all made
  when no \<open>is_set()\<close> call had returned true yet.
\<close>

definition stop_stays_set :: "reader_env \<Rightarrow> bool" where
  "stop_stays_set env \<longleftrightarrow> (\<forall>i j. i \<le> j \<and> stop_at env i \<longrightarrow> stop_at env j)"

definition reads_before_stop :: "reader_env \<Rightarrow> reader_event list \<Rightarrow> bool" where
  "reads_before_stop env tr \<longleftrightarrow> (\<forall>n. Ev_read_all_sensors n \<in> set tr \<longrightarrow> (\<forall>i<n. \<not> stop_at env i))"

text \<open>An example: the stop event set from the seventh \<open>is_set()\<close> call on, one control message.\<close>

definition example_reader_env :: reader_env where
  "example_reader_env =
     \<lparr> stop_at = (\<lambda>i. 6 \<le> i),
       control_at = (\<lambda>i. if i = 0 then Some Archive_now else None),
       time_at = (\<lambda>i. 0) \<rparr>"

subsection \<open>The bounded history\<close>

lemma length_deque_append:
  "length (deque_append cap xs x) = (if length xs < cap then Suc (length xs) else length xs)"
  by (auto simp: deque_append_def Let_def)

lemma add_data_maxlen: "maxlen (add_data t d dm) = maxlen dm"
  by (simp add: add_data_def)

lemma add_data_buffers_ok: "buffers_ok dm \<Longrightarrow> buffers_ok (add_data t d dm)"
  by (auto simp: buffers_ok_def add_data_def length_deque_append)

lemma add_all_maxlen: "maxlen (add_all xs dm) = maxlen dm"
  by (induction xs dm rule: add_all.induct) (simp_all add: add_data_maxlen)

lemma add_all_buffers_ok: "buffers_ok dm \<Longrightarrow> buffers_ok (add_all xs dm)"
  by (induction xs dm rule: add_all.induct) (simp_all add: add_data_buffers_ok)

lemma DataManager_init_ok:
  assumes "DataManager_init m = Inr dm"
  shows "buffers_ok dm \<and> int (maxlen dm) = m"
  using assms
  by (auto simp: DataManager_init_def deque_new_def buffers_ok_def split: if_splits)

text \<open>
  C3. A manager constructed with capacity \<open>max_data_points\<close>, after any sequence of
  \<open>add_data\<close> calls: neither buffer is longer than \<open>max_data_points\<close>, and the two
  buffers have the same length.
\<close>

theorem history_bounded:
  assumes "DataManager_init max_data_points = Inr dm0"
  shows "int (length (sensor_data_history (add_all calls dm0))) \<le> max_data_points
       \<and> int (length (timestamps (add_all calls dm0))) \<le> max_data_points
       \<and> length (timestamps (add_all calls dm0)) = length (sensor_data_history (add_all calls dm0))"
proof -
  from assms have ok0: "buffers_ok dm0" and cap: "int (maxlen dm0) = max_data_points"
    using DataManager_init_ok by blast+
  from ok0 have "buffers_ok (add_all calls dm0)"
    by (rule add_all_buffers_ok)
  then show ?thesis
    using cap by (simp add: buffers_ok_def add_all_maxlen [of calls dm0, symmetric])
qed

theorem history_bounded_witness:
  "DataManager_init 2 = Inr \<lparr> maxlen = 2, sensor_data_history = ([]::string list), timestamps = [] \<rparr>
   \<and> int (length (sensor_data_history
        (add_all [(1, ''a''), (2, ''b''), (3, ''c'')]
           \<lparr> maxlen = 2, sensor_data_history = [], timestamps = [] \<rparr>))) \<le> 2
   \<and> length (timestamps
        (add_all [(1, ''a''), (2, ''b''), (3, ''c'')]
           \<lparr> maxlen = 2, sensor_data_history = [], timestamps = [] \<rparr>)) = 2"
proof -
  have i: "DataManager_init 2 = Inr \<lparr> maxlen = 2, sensor_data_history = ([]::string list), timestamps = [] \<rparr>"
    by (simp add: DataManager_init_def deque_new_def)
  from history_bounded [OF i, of "[(1, ''a''), (2, ''b''), (3, ''c'')]"] i
  show ?thesis
    by (simp add: add_data_def deque_append_def)
qed

subsection \<open>Filtering by time range\<close>

text \<open>
  The loop over \<open>enumerate(self.timestamps)\<close>, started at any index with the part of the
  history before that index already passed: with buffers of equal length no index is out
  of range, and the loop appends the kept entries to both result lists.
\<close>

lemma filter_loop_zip:
  "length ts = length hs \<Longrightarrow>
   filter_loop time_limit (pre @ hs) (enumerate (length pre) ts) (fts, fds) =
     Inr (fts @ map fst (filter (\<lambda>(t, d). case time_limit of None \<Rightarrow> True | Some limit \<Rightarrow> t \<ge> limit) (zip ts hs)),
          fds @ map snd (filter (\<lambda>(t, d). case time_limit of None \<Rightarrow> True | Some limit \<Rightarrow> t \<ge> limit) (zip ts hs)))"
proof (induction ts arbitrary: hs pre fts fds)
  case Nil
  then show ?case by simp
next
  case (Cons t ts)
  then obtain h hs' where hs: "hs = h # hs'" and len: "length ts = length hs'"
    by (cases hs) auto
  have step: "filter_loop time_limit ((pre @ [h]) @ hs') (enumerate (length (pre @ [h])) ts) (a, b) =
     Inr (a @ map fst (filter (\<lambda>(t, d). case time_limit of None \<Rightarrow> True | Some limit \<Rightarrow> t \<ge> limit) (zip ts hs')),
          b @ map snd (filter (\<lambda>(t, d). case time_limit of None \<Rightarrow> True | Some limit \<Rightarrow> t \<ge> limit) (zip ts hs')))" for a b
    using Cons.IH [OF len] .
  show ?case
    using step by (simp add: hs)
qed

lemma get_filtered_data_limit:
  assumes "buffers_ok dm" and "time_limit_of now r = Some limit"
  shows "get_filtered_data now r dm =
           Inr (map fst (entries_since limit dm), map snd (entries_since limit dm))"
proof -
  from assms(1) have len: "length (timestamps dm) = length (sensor_data_history dm)"
    by (simp add: buffers_ok_def)
  show ?thesis
    using filter_loop_zip [OF len, of "Some limit" "[]" "[]" "[]"] assms(2)
    by (auto simp: get_filtered_data_def entries_since_def entries_def)
qed

lemma get_filtered_data_no_limit:
  assumes "buffers_ok dm" and "time_limit_of now r = None"
  shows "get_filtered_data now r dm = Inr (timestamps dm, sensor_data_history dm)"
proof -
  from assms(1) have len: "length (timestamps dm) = length (sensor_data_history dm)"
    by (simp add: buffers_ok_def)
  show ?thesis
    using filter_loop_zip [OF len, of None "[]" "[]" "[]"] assms(2) len
    by (auto simp: get_filtered_data_def)
qed

lemma time_limit_recognized:
  "(r, range_us) \<in> set recognized_ranges \<Longrightarrow> time_limit_of now r = Some (now - range_us)"
  by (auto simp: time_limit_of_def recognized_ranges_def minutes_def hours_def)

lemma time_limit_unrecognized:
  "r \<notin> fst ` set recognized_ranges \<Longrightarrow> time_limit_of now r = None"
  by (auto simp: time_limit_of_def recognized_ranges_def)

lemma reachable_buffers_ok:
  "DataManager_init m = Inr dm0 \<Longrightarrow> buffers_ok (add_all calls dm0)"
  using DataManager_init_ok add_all_buffers_ok by blast

text \<open>
  C4. For each of the five recognized time ranges and every state of the buffers that
  \<open>add_data\<close> calls can reach, \<open>get_filtered_data\<close> returns exactly the entries whose
  timestamp is at least the current time minus the range, in insertion order, the list
  of timestamps and the list of readings aligned index by index.
\<close>

theorem get_filtered_data_recognized:
  assumes "DataManager_init m = Inr dm0"
    and "(r, range_us) \<in> set recognized_ranges"
  shows "get_filtered_data now r (add_all calls dm0) =
           Inr (map fst (entries_since (now - range_us) (add_all calls dm0)),
                map snd (entries_since (now - range_us) (add_all calls dm0)))"
  using assms get_filtered_data_limit reachable_buffers_ok time_limit_recognized by blast

theorem get_filtered_data_recognized_witness:
  "DataManager_init 5 = Inr \<lparr> maxlen = 5, sensor_data_history = ([]::string list), timestamps = [] \<rparr>
   \<and> (''Last 10 minutes'', 600000000) \<in> set recognized_ranges
   \<and> get_filtered_data 1000000000 ''Last 10 minutes''
        (add_all [(100000000, ''a''), (400000000, ''b''), (300000000, ''c''), (900000000, ''d'')]
           \<lparr> maxlen = 5, sensor_data_history = [], timestamps = [] \<rparr>)
       = Inr ([400000000, 900000000], [''b'', ''d''])"
proof -
  have i: "DataManager_init 5 = Inr \<lparr> maxlen = 5, sensor_data_history = ([]::string list), timestamps = [] \<rparr>"
    by (simp add: DataManager_init_def deque_new_def)
  have r: "(''Last 10 minutes'', 600000000) \<in> set recognized_ranges"
    by (simp add: recognized_ranges_def)
  from get_filtered_data_recognized [OF i r, of 1000000000
      "[(100000000, ''a''), (400000000, ''b''), (300000000, ''c''), (900000000, ''d'')]"] i r
  show ?thesis
    by (simp add: add_data_def deque_append_def entries_since_def entries_def)
qed

text \<open>
  C9. For any other time-range string (\<open>All data\<close> among them) no limit applies and
  \<open>get_filtered_data\<close> returns the whole history in its order; on an empty history it
  returns two empty lists.
\<close>

theorem get_filtered_data_unrecognized:
  assumes "DataManager_init m = Inr dm0"
    and "r \<notin> fst ` set recognized_ranges"
  shows "get_filtered_data now r (add_all calls dm0) =
           Inr (timestamps (add_all calls dm0), sensor_data_history (add_all calls dm0))
       \<and> (sensor_data_history (add_all calls dm0) = [] \<longrightarrow>
            get_filtered_data now r (add_all calls dm0) = Inr ([], []))"
proof -
  have ok: "buffers_ok (add_all calls dm0)"
    using assms(1) by (rule reachable_buffers_ok)
  have all: "get_filtered_data now r (add_all calls dm0) =
           Inr (timestamps (add_all calls dm0), sensor_data_history (add_all calls dm0))"
    using ok assms(2) get_filtered_data_no_limit time_limit_unrecognized by blast
  from ok have "sensor_data_history (add_all calls dm0) = [] \<longrightarrow> timestamps (add_all calls dm0) = []"
    by (auto simp: buffers_ok_def)
  with all show ?thesis by auto
qed

theorem get_filtered_data_unrecognized_witness:
  "DataManager_init 2 = Inr \<lparr> maxlen = 2, sensor_data_history = ([]::string list), timestamps = [] \<rparr>
   \<and> ''All data'' \<notin> fst ` set recognized_ranges
   \<and> get_filtered_data 1000000000 ''All data''
        (add_all [(1, ''a''), (3, ''b''), (2, ''c'')]
           \<lparr> maxlen = 2, sensor_data_history = [], timestamps = [] \<rparr>)
       = Inr ([3, 2], [''b'', ''c''])
   \<and> sensor_data_history (add_all [] \<lparr> maxlen = 2, sensor_data_history = ([]::string list), timestamps = [] \<rparr>) = []
   \<and> get_filtered_data 1000000000 ''All data''
        (add_all [] \<lparr> maxlen = 2, sensor_data_history = ([]::string list), timestamps = [] \<rparr>)
       = Inr ([], [])"
proof -
  have i: "DataManager_init 2 = Inr \<lparr> maxlen = 2, sensor_data_history = ([]::string list), timestamps = [] \<rparr>"
    by (simp add: DataManager_init_def deque_new_def)
  have r: "''All data'' \<notin> fst ` set recognized_ranges"
    by (simp add: recognized_ranges_def)
  from get_filtered_data_unrecognized [OF i r, of 1000000000 "[(1, ''a''), (3, ''b''), (2, ''c'')]"]
       get_filtered_data_unrecognized [OF i r, of 1000000000 "[]"] i r
  show ?thesis
    by (simp add: add_data_def deque_append_def)
qed

subsection \<open>The heading difference of the trip analysis\<close>

lemma py_mod_range: "0 < m \<Longrightarrow> 0 \<le> py_mod x m \<and> py_mod x m < m"
proof -
  assume m: "0 < m"
  have a: "of_int \<lfloor>x / m\<rfloor> \<le> x / m" by (rule of_int_floor_le)
  have b: "x / m < of_int \<lfloor>x / m\<rfloor> + 1" by linarith
  have c: "m * (x / m) = x" using m by simp
  have "m * of_int \<lfloor>x / m\<rfloor> \<le> m * (x / m)"
    by (rule mult_left_mono [OF a]) (use m in simp)
  with c have lo: "m * of_int \<lfloor>x / m\<rfloor> \<le> x" by simp
  have "m * (x / m) < m * (of_int \<lfloor>x / m\<rfloor> + 1)"
    by (rule mult_strict_left_mono [OF b m])
  with c have hi: "x < m * (of_int \<lfloor>x / m\<rfloor> + 1)" by simp
  from lo hi show ?thesis by (simp add: py_mod_def algebra_simps)
qed

lemma heading_diff_range: "- 180 \<le> heading_diff p c \<and> heading_diff p c \<le> 180"
  using py_mod_range [of 360 p] py_mod_range [of 360 c]
  by (auto simp: heading_diff_def Let_def)

lemma heading_diff_arc: "\<bar>heading_diff p c\<bar> = smaller_arc (py_mod p 360) (py_mod c 360)"
  using py_mod_range [of 360 p] py_mod_range [of 360 c]
  by (auto simp: heading_diff_def Let_def smaller_arc_def)

lemma heading_diff_congruent: "\<exists>k::int. heading_diff p c = c - p + 360 * of_int k"
proof -
  have "\<exists>k::int. py_mod c 360 - py_mod p 360 = c - p + 360 * of_int k"
    by (rule exI [of _ "\<lfloor>p / 360\<rfloor> - \<lfloor>c / 360\<rfloor>"]) (simp add: py_mod_def algebra_simps)
  then obtain k :: int where k: "py_mod c 360 - py_mod p 360 = c - p + 360 * of_int k" ..
  show ?thesis
  proof (cases "py_mod c 360 - py_mod p 360 > 180")
    case True
    then have "heading_diff p c = c - p + 360 * of_int (k - 1)"
      using k by (simp add: heading_diff_def Let_def algebra_simps)
    then show ?thesis ..
  next
    case False
    show ?thesis
    proof (cases "py_mod c 360 - py_mod p 360 < - 180")
      case True
      with False have "heading_diff p c = c - p + 360 * of_int (k + 1)"
        using k by (simp add: heading_diff_def Let_def algebra_simps)
      then show ?thesis ..
    next
      case False2: False
      with False have "heading_diff p c = c - p + 360 * of_int k"
        using k by (simp add: heading_diff_def Let_def)
      then show ?thesis ..
    qed
  qed
qed

text \<open>
  What one iteration of the loop does to the count of sharp-cornering events, for a
  point that has a predecessor and a positive time difference to it.
\<close>

lemma analyze_step_cornering:
  assumes "prev_dp acc = Some prev" and "timestamp dp - timestamp prev > 0"
  shows "sharp_cornering_events (analyze_step haversine_distance speed_noise_threshold acc dp) =
           sharp_cornering_events acc +
           (if gSpeed dp > speed_noise_threshold \<and>
               \<bar>heading_diff (headMot prev) (headMot dp) / (timestamp dp - timestamp prev)\<bar>
                 > SHARP_CORNERING_THRESHOLD_DEG_PER_SEC
            then 1 else 0)"
  using assms by (simp add: analyze_step_def Let_def)

text \<open>
  C10. For two consecutive data points with a positive time difference, the heading
  difference that the sharp-cornering test of \<open>_analyze_trip_data\<close> uses lies in
  \<open>[-180, 180]\<close>, differs from the raw difference of the headings by a whole number of
  turns, and its size is the smaller arc between the two headings modulo 360; the event
  is counted exactly when the point is moving and this difference over the time
  difference exceeds the threshold.
\<close>

theorem cornering_heading_normalized:
  assumes "prev_dp acc = Some prev" and "timestamp dp - timestamp prev > 0"
  shows "- 180 \<le> heading_diff (headMot prev) (headMot dp)
       \<and> heading_diff (headMot prev) (headMot dp) \<le> 180
       \<and> (\<exists>k::int. heading_diff (headMot prev) (headMot dp) = headMot dp - headMot prev + 360 * of_int k)
       \<and> \<bar>heading_diff (headMot prev) (headMot dp)\<bar>
           = smaller_arc (py_mod (headMot prev) 360) (py_mod (headMot dp) 360)
       \<and> sharp_cornering_events (analyze_step haversine_distance speed_noise_threshold acc dp) =
           sharp_cornering_events acc +
           (if gSpeed dp > speed_noise_threshold \<and>
               \<bar>heading_diff (headMot prev) (headMot dp) / (timestamp dp - timestamp prev)\<bar>
                 > SHARP_CORNERING_THRESHOLD_DEG_PER_SEC
            then 1 else 0)"
  using heading_diff_range [of "headMot prev" "headMot dp"]
        heading_diff_congruent [of "headMot prev" "headMot dp"]
        heading_diff_arc [of "headMot prev" "headMot dp"]
        analyze_step_cornering [OF assms]
  by simp

theorem cornering_heading_normalized_witness:
  "prev_dp \<lparr> total_distance = 0, max_speed = 10, hard_braking_events = 0, sharp_cornering_events = 0,
            prev_dp = Some \<lparr> timestamp = 0, lat = 0, lon = 0, gSpeed = 10, headMot = 359 \<rparr> \<rparr>
     = Some \<lparr> timestamp = 0, lat = 0, lon = 0, gSpeed = 10, headMot = 359 \<rparr>
   \<and> timestamp \<lparr> timestamp = 1, lat = 0, lon = 0, gSpeed = 10, headMot = 1 \<rparr>
       - timestamp \<lparr> timestamp = 0, lat = 0, lon = 0, gSpeed = 10, headMot = 359 \<rparr> > 0
   \<and> heading_diff 359 1 = 2
   \<and> sharp_cornering_events
        (analyze_step (\<lambda>lat1 lon1 lat2 lon2. 0) (1 / 2)
           \<lparr> total_distance = 0, max_speed = 10, hard_braking_events = 0, sharp_cornering_events = 0,
             prev_dp = Some \<lparr> timestamp = 0, lat = 0, lon = 0, gSpeed = 10, headMot = 359 \<rparr> \<rparr>
           \<lparr> timestamp = 1, lat = 0, lon = 0, gSpeed = 10, headMot = 1 \<rparr>) = 0"
proof -
  have hd: "heading_diff 359 1 = 2"
    by (simp add: heading_diff_def py_mod_def Let_def)
  from cornering_heading_normalized
         [of "\<lparr> total_distance = 0, max_speed = 10, hard_braking_events = 0, sharp_cornering_events = 0,
               prev_dp = Some \<lparr> timestamp = 0, lat = 0, lon = 0, gSpeed = 10, headMot = 359 \<rparr> \<rparr>"
             "\<lparr> timestamp = 0, lat = 0, lon = 0, gSpeed = 10, headMot = 359 \<rparr>"
             "\<lparr> timestamp = 1, lat = 0, lon = 0, gSpeed = 10, headMot = 1 \<rparr>"
             "\<lambda>lat1 lon1 lat2 lon2. 0" "1 / 2"] hd
  show ?thesis
    by (simp add: SHARP_CORNERING_THRESHOLD_DEG_PER_SEC_def)
qed

subsection \<open>Failed hardware reads\<close>

lemma hardware_read_names:
  "hardware_read self name = Some r \<Longrightarrow> name \<in> set sensor_names"
  by (auto simp: hardware_read_def sensor_names_def split: if_splits)

lemma read_block_fst_snd:
  "fst (read_block dev f l c n) = (case dev of Some d \<Rightarrow> (case f d of Inr m \<Rightarrow> [] | Inl e \<Rightarrow> [(l @ '' read error: '' @ e, c)]) | None \<Rightarrow> [])"
  "snd (read_block dev f l c n) = (case dev of Some d \<Rightarrow> (case f d of Inr m \<Rightarrow> m | Inl e \<Rightarrow> n) | None \<Rightarrow> n)"
  by (auto simp: read_block_def split: option.splits sum.splits)

lemma qt_failed_read:
  assumes "\<not> use_mock_data qt" and "hardware_read qt name = Some (Inl e)"
  shows "failed_read_reported (fst (read_all_sensors_qt qt g)) name e ''warning''"
proof -
  from assms(2) have "name \<in> set sensor_names" by (rule hardware_read_names)
  then consider "name = ''bme280''" | "name = ''sgp40''" | "name = ''shtc3''" | "name = ''proximity''"
    by (auto simp: sensor_names_def)
  then show ?thesis
  proof cases
    case 1
    with assms show ?thesis
      by (auto simp: failed_read_reported_def read_all_sensors_qt_def case_prod_beta read_block_fst_snd
          hardware_read_def metric_names_def sensor_label_def sensor_names_def nan_bme280_def)
  next
    case 2
    with assms show ?thesis
      by (auto simp: failed_read_reported_def read_all_sensors_qt_def case_prod_beta read_block_fst_snd
          hardware_read_def metric_names_def sensor_label_def sensor_names_def nan_sgp40_def)
  next
    case 3
    with assms show ?thesis
      by (auto simp: failed_read_reported_def read_all_sensors_qt_def case_prod_beta read_block_fst_snd
          hardware_read_def metric_names_def sensor_label_def sensor_names_def nan_shtc3_def)
  next
    case 4
    with assms show ?thesis
      by (auto simp: failed_read_reported_def read_all_sensors_qt_def case_prod_beta read_block_fst_snd
          hardware_read_def metric_names_def sensor_label_def sensor_names_def nan_proximity_def)
  qed
qed

lemma read_block_tk_out:
  "fst (fst (read_block_tk glob dev f l n mock g)) =
     (case dev of Some d \<Rightarrow> (case f d of Inr m \<Rightarrow> [] | Inl e \<Rightarrow> [(l @ '' read error: '' @ e, ''orange'')])
      | None \<Rightarrow> [])"
  "snd (fst (read_block_tk glob dev f l n mock g)) =
     (case dev of Some d \<Rightarrow> (case f d of Inr m \<Rightarrow> m | Inl e \<Rightarrow> n)
      | None \<Rightarrow> if \<not> SENSORS_AVAILABLE glob then fst (mock g) else n)"
  by (auto simp: read_block_tk_def case_prod_beta split: option.splits sum.splits)

lemma tk_failed_read:
  assumes "hardware_read tk name = Some (Inl e)"
  shows "failed_read_reported (fst (read_all_sensors_tk glob tk g)) name e ''orange''"
proof -
  from assms have "name \<in> set sensor_names" by (rule hardware_read_names)
  then consider "name = ''bme280''" | "name = ''sgp40''" | "name = ''shtc3''" | "name = ''proximity''"
    by (auto simp: sensor_names_def)
  then show ?thesis
  proof cases
    case 1
    with assms show ?thesis
      by (auto simp: failed_read_reported_def read_all_sensors_tk_def case_prod_beta read_block_tk_out
          hardware_read_def metric_names_def sensor_label_def sensor_names_def nan_bme280_def)
  next
    case 2
    with assms show ?thesis
      by (auto simp: failed_read_reported_def read_all_sensors_tk_def case_prod_beta read_block_tk_out
          hardware_read_def metric_names_def sensor_label_def sensor_names_def nan_sgp40_def)
  next
    case 3
    with assms show ?thesis
      by (auto simp: failed_read_reported_def read_all_sensors_tk_def case_prod_beta read_block_tk_out
          hardware_read_def metric_names_def sensor_label_def sensor_names_def nan_shtc3_def)
  next
    case 4
    with assms show ?thesis
      by (auto simp: failed_read_reported_def read_all_sensors_tk_def case_prod_beta read_block_tk_out
          hardware_read_def metric_names_def sensor_label_def sensor_names_def nan_proximity_def)
  qed
qed

text \<open>
  C1. For each sensor whose hardware read raises during \<open>read_all_sensors\<close> (in the
  PyQt5 variant the hardware is read only when the mock flag is off): the entry of that
  sensor in the returned dictionary maps each of its metrics to NaN, a status message
  with the text of the exception is emitted, and the call returns a dictionary with an
  entry for each of the four sensors. Both variants.
\<close>

theorem failed_read_gives_nan:
  "(\<not> use_mock_data qt \<and> hardware_read qt name = Some (Inl e) \<longrightarrow>
      failed_read_reported (fst (read_all_sensors_qt qt g)) name e ''warning'')
   \<and> (hardware_read tk name = Some (Inl e) \<longrightarrow>
      failed_read_reported (fst (read_all_sensors_tk glob tk g)) name e ''orange'')"
  using qt_failed_read tk_failed_read by blast

theorem failed_read_gives_nan_witness:
  "\<not> use_mock_data \<lparr> bme = Some bme_pressure_fails, sgp = None, prox = None, sht = None, use_mock_data = False \<rparr>
   \<and> hardware_read \<lparr> bme = Some bme_pressure_fails, sgp = None, prox = None, sht = None, use_mock_data = False \<rparr>
        ''bme280'' = Some (Inl ''I2C timeout'')
   \<and> failed_read_reported
        (fst (read_all_sensors_qt
           \<lparr> bme = Some bme_pressure_fails, sgp = None, prox = None, sht = None, use_mock_data = False \<rparr>
           \<lparr> raw = (\<lambda>n. n), pos = 0 \<rparr>)) ''bme280'' ''I2C timeout'' ''warning''
   \<and> hardware_read \<lparr> bme = Some bme_pressure_fails, sgp = None, prox = None, sht = None \<rparr>
        ''bme280'' = Some (Inl ''I2C timeout'')
   \<and> failed_read_reported
        (fst (read_all_sensors_tk
           \<lparr> SENSORS_AVAILABLE = True, qwiic_bme280 = None, qwiic_sgp40 = None, qwiic_proximity = None,
             adafruit_shtc3 = None, I2C_BUS = True \<rparr>
           \<lparr> bme = Some bme_pressure_fails, sgp = None, prox = None, sht = None \<rparr>
           \<lparr> raw = (\<lambda>n. n), pos = 0 \<rparr>)) ''bme280'' ''I2C timeout'' ''orange''"
proof -
  have h1: "hardware_read \<lparr> bme = Some bme_pressure_fails, sgp = None, prox = None, sht = None, use_mock_data = False \<rparr>
        ''bme280'' = Some (Inl ''I2C timeout'')"
    by (simp add: hardware_read_def try_bme280_def bme_pressure_fails_def)
  have h2: "hardware_read \<lparr> bme = Some bme_pressure_fails, sgp = None, prox = None, sht = None \<rparr>
        ''bme280'' = Some (Inl ''I2C timeout'')"
    by (simp add: hardware_read_def try_bme280_def bme_pressure_fails_def)
  from failed_read_gives_nan
         [of "\<lparr> bme = Some bme_pressure_fails, sgp = None, prox = None, sht = None, use_mock_data = False \<rparr>"
             "''bme280''" "''I2C timeout''" "\<lparr> raw = (\<lambda>n. n), pos = 0 \<rparr>"
             "\<lparr> bme = Some bme_pressure_fails, sgp = None, prox = None, sht = None \<rparr>"
             "\<lparr> SENSORS_AVAILABLE = True, qwiic_bme280 = None, qwiic_sgp40 = None, qwiic_proximity = None,
               adafruit_shtc3 = None, I2C_BUS = True \<rparr>"] h1 h2
  show ?thesis by simp
qed

subsection \<open>Mock ranges\<close>

lemma py_random_unit: "0 \<le> fst (py_random g) \<and> fst (py_random g) < 1"
  by (simp add: py_random_def)

lemma uniform_range:
  assumes "a \<le> b"
  shows "a \<le> fst (uniform a b g) \<and> fst (uniform a b g) \<le> b"
proof -
  let ?u = "fst (py_random g)"
  have u: "0 \<le> ?u" "?u \<le> 1" using py_random_unit [of g] by auto
  have eq: "fst (uniform a b g) = a + (b - a) * ?u"
    by (simp add: uniform_def case_prod_beta)
  from assms u have "0 \<le> (b - a) * ?u" by simp
  moreover from assms u have "(b - a) * ?u \<le> (b - a) * 1"
    by (intro mult_left_mono) auto
  ultimately show ?thesis using eq by simp
qed

lemma randint_range:
  assumes "a \<le> b"
  shows "a \<le> fst (randint a b g) \<and> fst (randint a b g) \<le> b"
proof -
  have "0 < nat (b - a + 1)" using assms by simp
  then have "raw g (pos g) mod nat (b - a + 1) < nat (b - a + 1)" by (rule mod_less_divisor)
  then have "int (raw g (pos g) mod nat (b - a + 1)) < b - a + 1" using assms by linarith
  then show ?thesis by (simp add: randint_def)
qed

lemma mock_qt_ranges: "use_mock_data self \<Longrightarrow> within_mock_ranges (snd (fst (read_all_sensors_qt self g)))"
  by (simp add: within_mock_ranges_def metric_in_def read_all_sensors_qt_def mock_bme280_def
      mock_sgp40_def mock_shtc3_def mock_proximity_def Let_def case_prod_beta uniform_range randint_range)

lemma polls_qt_ranges:
  "use_mock_data self \<Longrightarrow> list_all within_mock_ranges (polls_qt n self g)"
proof (induction n arbitrary: g)
  case 0
  show ?case by simp
next
  case (Suc n)
  have "within_mock_ranges (snd (fst (read_all_sensors_qt self g)))"
    using Suc.prems by (rule mock_qt_ranges)
  moreover have "list_all within_mock_ranges (polls_qt n self (snd (read_all_sensors_qt self g)))"
    using Suc.prems by (rule Suc.IH)
  ultimately show ?case by (simp add: case_prod_beta)
qed

text \<open>
  Without the sensor libraries, \<open>_initialize_sensors\<close> of the Tkinter variant leaves the
  four sensor objects \<open>None\<close>, and each poll takes the mock branch for every sensor.
\<close>

lemma init_tk_unavailable:
  assumes "\<not> SENSORS_AVAILABLE glob" and "SensorInterface_init_tk glob = Inr (msgs, self)"
  shows "bme self = None \<and> sgp self = None \<and> prox self = None \<and> sht self = None"
  using assms
  by (auto simp: SensorInterface_init_tk_def init_connected_def init_sgp40_def init_shtc3_def)

lemma mock_tk_ranges:
  assumes "\<not> SENSORS_AVAILABLE glob"
    and "bme self = None \<and> sgp self = None \<and> prox self = None \<and> sht self = None"
  shows "within_mock_ranges (snd (fst (read_all_sensors_tk glob self g)))"
  using assms
  by (simp add: within_mock_ranges_def metric_in_def read_all_sensors_tk_def read_block_tk_def
      mock_bme280_def mock_sgp40_def mock_shtc3_def mock_proximity_def Let_def case_prod_beta
      uniform_range randint_range)

lemma polls_tk_ranges:
  assumes "\<not> SENSORS_AVAILABLE glob"
    and "bme self = None \<and> sgp self = None \<and> prox self = None \<and> sht self = None"
  shows "list_all within_mock_ranges (polls_tk n glob self g)"
proof (induction n arbitrary: g)
  case 0
  show ?case by simp
next
  case (Suc n)
  have "within_mock_ranges (snd (fst (read_all_sensors_tk glob self g)))"
    using assms by (rule mock_tk_ranges)
  moreover have "list_all within_mock_ranges (polls_tk n glob self (snd (read_all_sensors_tk glob self g)))"
    by (rule Suc.IH)
  ultimately show ?case by (simp add: case_prod_beta)
qed

text \<open>
  C6. In mock mode (the mock flag of the PyQt5 variant; in the Tkinter variant an
  interface initialised without the sensor libraries), every poll of any sequence of
  polls, for any stream of raw random numbers, gives values within the documented
  ranges.
\<close>

theorem mock_values_in_range:
  "(use_mock_data qt \<longrightarrow> list_all within_mock_ranges (polls_qt n qt g))
   \<and> (\<not> SENSORS_AVAILABLE glob \<and> SensorInterface_init_tk glob = Inr (msgs, tk) \<longrightarrow>
        list_all within_mock_ranges (polls_tk n glob tk g))"
  using polls_qt_ranges polls_tk_ranges init_tk_unavailable by blast

theorem mock_values_in_range_witness:
  "use_mock_data \<lparr> bme = None, sgp = None, prox = None, sht = None, use_mock_data = True \<rparr>
   \<and> list_all within_mock_ranges
        (polls_qt 3 \<lparr> bme = None, sgp = None, prox = None, sht = None, use_mock_data = True \<rparr>
           \<lparr> raw = (\<lambda>n. 1000003 * n + 17), pos = 0 \<rparr>)
   \<and> \<not> SENSORS_AVAILABLE \<lparr> SENSORS_AVAILABLE = False, qwiic_bme280 = None, qwiic_sgp40 = None,
          qwiic_proximity = None, adafruit_shtc3 = None, I2C_BUS = False \<rparr>
   \<and> SensorInterface_init_tk \<lparr> SENSORS_AVAILABLE = False, qwiic_bme280 = None, qwiic_sgp40 = None,
          qwiic_proximity = None, adafruit_shtc3 = None, I2C_BUS = False \<rparr>
       = Inr ([(''BME280 library not found (mocking).'', ''red''),
               (''SGP40 library not found (mocking).'', ''red''),
               (''Proximity library not found (mocking).'', ''red''),
               (''SHTC3 library or I2C bus not found (mocking).'', ''red'')],
              \<lparr> bme = None, sgp = None, prox = None, sht = None \<rparr>)
   \<and> list_all within_mock_ranges
        (polls_tk 3 \<lparr> SENSORS_AVAILABLE = False, qwiic_bme280 = None, qwiic_sgp40 = None,
             qwiic_proximity = None, adafruit_shtc3 = None, I2C_BUS = False \<rparr>
           \<lparr> bme = None, sgp = None, prox = None, sht = None \<rparr>
           \<lparr> raw = (\<lambda>n. 1000003 * n + 17), pos = 0 \<rparr>)"
proof -
  have i: "SensorInterface_init_tk \<lparr> SENSORS_AVAILABLE = False, qwiic_bme280 = None, qwiic_sgp40 = None,
          qwiic_proximity = None, adafruit_shtc3 = None, I2C_BUS = False \<rparr>
       = Inr ([(''BME280 library not found (mocking).'', ''red''),
               (''SGP40 library not found (mocking).'', ''red''),
               (''Proximity library not found (mocking).'', ''red''),
               (''SHTC3 library or I2C bus not found (mocking).'', ''red'')],
              \<lparr> bme = None, sgp = None, prox = None, sht = None \<rparr>)"
    by (simp add: SensorInterface_init_tk_def init_connected_def init_sgp40_def init_shtc3_def)
  from mock_values_in_range
         [of "\<lparr> bme = None, sgp = None, prox = None, sht = None, use_mock_data = True \<rparr>" 3
             "\<lparr> raw = (\<lambda>n. 1000003 * n + 17), pos = 0 \<rparr>"
             "\<lparr> SENSORS_AVAILABLE = False, qwiic_bme280 = None, qwiic_sgp40 = None,
               qwiic_proximity = None, adafruit_shtc3 = None, I2C_BUS = False \<rparr>"
             "[(''BME280 library not found (mocking).'', ''red''),
               (''SGP40 library not found (mocking).'', ''red''),
               (''Proximity library not found (mocking).'', ''red''),
               (''SHTC3 library or I2C bus not found (mocking).'', ''red'')]"
             "\<lparr> bme = None, sgp = None, prox = None, sht = None \<rparr>"] i
  show ?thesis by simp
qed

section \<open>Properties of the PyQt5 data logger\<close>

lemma map_of_update_handles:
  "map_of (AList.update k v al) k' = (if k' = k then Some v else map_of al k')"
  by (simp add: AList.update_conv')

lemma map_of_delete_handles:
  "map_of (AList.delete k al) k' = (if k' = k then None else map_of al k')"
  by (simp add: AList.delete_conv')

subsection \<open>What opening a file changes\<close>

lemma open_failed_simps:
  "map_of (active_log_file_handles (open_failed s e self)) t =
     (if t = s then None else map_of (active_log_file_handles self) t)"
  "fs (open_failed s e self) = fs self"
  "emitted (open_failed s e self) =
     emitted self @ [(''Error opening/creating log file for '' @ s @ '': '' @ exn_message e, ''danger'')]"
  "log_path_internal (open_failed s e self) = log_path_internal self"
  "log_settings_internal (open_failed s e self) = log_settings_internal self"
  "archive_enabled_internal (open_failed s e self) = archive_enabled_internal self"
  "last_archive_time (open_failed s e self) = last_archive_time self"
  "archive_interval_hours (open_failed s e self) = archive_interval_hours self"
  "archive_path_internal (open_failed s e self) = archive_path_internal self"
  by (simp_all add: open_failed_def emit_def Let_def map_of_delete_handles)

lemma open_new_fails:
  assumes "open_fails env p = Some m"
  shows "open_new env s p self = open_failed s (OSError m) self"
  using assms by (simp add: open_new_def)

lemma open_new_creates:
  assumes "open_fails env p = None" and "fs self p = None"
    and "csv_header s = Some header" and "write_fails env p = None"
  shows "open_new env s p self =
           self \<lparr> fs := (fs self)(p \<mapsto> [header]),
                  active_log_file_handles :=
                    AList.update s \<lparr> f_name = p, f_closed = False \<rparr> (active_log_file_handles self) \<rparr>"
  using assms by (simp add: open_new_def)

lemma open_new_creates_plain:
  assumes "open_fails env p = None" and "fs self p = None" and "csv_header s = None"
  shows "open_new env s p self =
           self \<lparr> fs := (fs self)(p \<mapsto> []),
                  active_log_file_handles :=
                    AList.update s \<lparr> f_name = p, f_closed = False \<rparr> (active_log_file_handles self) \<rparr>"
  using assms by (simp add: open_new_def)

lemma open_new_appends:
  assumes "open_fails env p = None" and "fs self p = Some rows"
  shows "open_new env s p self =
           self \<lparr> active_log_file_handles :=
                    AList.update s \<lparr> f_name = p, f_closed = False \<rparr> (active_log_file_handles self) \<rparr>"
  using assms by (simp add: open_new_def)

lemma open_new_header_fails:
  assumes "open_fails env p = None" and "fs self p = None"
    and "csv_header s = Some header" and "write_fails env p = Some m"
  shows "open_new env s p self = open_failed s (OSError m) (self \<lparr> fs := (fs self)(p \<mapsto> []) \<rparr>)"
  using assms by (simp add: open_new_def)

lemma open_new_frame:
  "log_path_internal (open_new env s p self) = log_path_internal self"
  "log_settings_internal (open_new env s p self) = log_settings_internal self"
  "archive_enabled_internal (open_new env s p self) = archive_enabled_internal self"
  "last_archive_time (open_new env s p self) = last_archive_time self"
  "archive_interval_hours (open_new env s p self) = archive_interval_hours self"
  "archive_path_internal (open_new env s p self) = archive_path_internal self"
  by (simp_all add: open_new_def Let_def open_failed_simps split: option.splits)

lemma open_new_other_handle:
  "t \<noteq> s \<Longrightarrow> map_of (active_log_file_handles (open_new env s p self)) t = map_of (active_log_file_handles self) t"
  by (simp add: open_new_def Let_def open_failed_simps map_of_update_handles split: option.splits)

lemma open_log_file_frame:
  "log_path_internal (snd (open_log_file clk env s self)) = log_path_internal self"
  "log_settings_internal (snd (open_log_file clk env s self)) = log_settings_internal self"
  "archive_enabled_internal (snd (open_log_file clk env s self)) = archive_enabled_internal self"
  "last_archive_time (snd (open_log_file clk env s self)) = last_archive_time self"
  "archive_interval_hours (snd (open_log_file clk env s self)) = archive_interval_hours self"
  "archive_path_internal (snd (open_log_file clk env s self)) = archive_path_internal self"
  by (simp_all add: open_log_file_def Let_def open_new_frame split: option.splits)

lemma open_log_file_other_handle:
  "t \<noteq> s \<Longrightarrow> map_of (active_log_file_handles (snd (open_log_file clk env s self))) t
               = map_of (active_log_file_handles self) t"
  by (simp add: open_log_file_def Let_def open_new_other_handle map_of_update_handles split: option.splits)

lemma open_log_file_no_handle:
  assumes "map_of (active_log_file_handles self) s = None"
  shows "open_log_file clk env s self =
           (case makedirs_fails env (log_path_internal self @ [s]) of
              Some m \<Rightarrow> (Some (OSError m), self)
            | None \<Rightarrow> (None, open_new env s (csv_path (log_path_internal self) s (clock_today clk)) self))"
  using assms by (simp add: open_log_file_def Let_def split: option.splits)

subsection \<open>What logging one sensor changes\<close>

lemma fs_grows_refl: "fs_grows f f"
  by (simp add: fs_grows_def)

lemma fs_grows_trans: "fs_grows f g \<Longrightarrow> fs_grows g h \<Longrightarrow> fs_grows f h"
  unfolding fs_grows_def
proof (intro allI impI)
  fix p rows
  assume ab: "\<forall>p rows. f p = Some rows \<longrightarrow> (\<exists>more. g p = Some (rows @ more))"
    and bc: "\<forall>p rows. g p = Some rows \<longrightarrow> (\<exists>more. h p = Some (rows @ more))"
    and a: "f p = Some rows"
  from ab a obtain m1 where "g p = Some (rows @ m1)" by blast
  with bc obtain m2 where "h p = Some ((rows @ m1) @ m2)" by blast
  then have "h p = Some (rows @ (m1 @ m2))" by simp
  then show "\<exists>more. h p = Some (rows @ more)" ..
qed

lemma open_new_fs:
  "fs (open_new env s p self) =
     (case open_fails env p of
        Some m \<Rightarrow> fs self
      | None \<Rightarrow>
          (case fs self p of
             Some rows \<Rightarrow> fs self
           | None \<Rightarrow>
               (case csv_header s of
                  None \<Rightarrow> (fs self)(p \<mapsto> [])
                | Some header \<Rightarrow>
                    (case write_fails env p of
                       Some m \<Rightarrow> (fs self)(p \<mapsto> [])
                     | None \<Rightarrow> (fs self)(p \<mapsto> [header])))))"
  by (simp add: open_new_def Let_def open_failed_simps split: option.splits)

lemma open_new_grows: "fs_grows (fs self) (fs (open_new env s p self))"
  by (auto simp: fs_grows_def open_new_fs split: option.splits)

lemma open_log_file_grows: "fs_grows (fs self) (fs (snd (open_log_file clk env s self)))"
  using open_new_grows [of "self \<lparr> active_log_file_handles := h \<rparr>" env s for h]
        open_new_grows [of self env s]
  by (auto simp: open_log_file_def Let_def fs_grows_refl split: option.splits)

lemma emitted_open_new:
  "\<exists>new. emitted (open_new env s p self) = emitted self @ new"
  by (simp add: open_new_def Let_def open_failed_simps split: option.splits)

lemma emitted_open_log_file:
  "\<exists>new. emitted (snd (open_log_file clk env s self)) = emitted self @ new"
  using emitted_open_new [of env s _ "self \<lparr> active_log_file_handles := h \<rparr>" for h]
        emitted_open_new [of env s _ self]
  by (simp add: open_log_file_def Let_def split: option.splits)

lemma write_row_frame:
  "active_log_file_handles (snd (write_row env f r self)) = active_log_file_handles self"
  "emitted (snd (write_row env f r self)) = emitted self"
  "log_path_internal (snd (write_row env f r self)) = log_path_internal self"
  "log_settings_internal (snd (write_row env f r self)) = log_settings_internal self"
  "archive_enabled_internal (snd (write_row env f r self)) = archive_enabled_internal self"
  "last_archive_time (snd (write_row env f r self)) = last_archive_time self"
  "archive_interval_hours (snd (write_row env f r self)) = archive_interval_hours self"
  "archive_path_internal (snd (write_row env f r self)) = archive_path_internal self"
  by (simp_all add: write_row_def split: option.splits)

lemma write_row_grows: "fs_grows (fs self) (fs (snd (write_row env f r self)))"
  by (auto simp: fs_grows_def write_row_def split: option.splits)

lemma write_row_ok:
  assumes "\<not> f_closed f" and "write_fails env (f_name f) = None" and "fs self (f_name f) = Some rows"
  shows "write_row env f r self = (None, self \<lparr> fs := (fs self)(f_name f \<mapsto> rows @ [r]) \<rparr>)"
  using assms by (simp add: write_row_def)

lemma log_one_eq:
  "log_one clk env rd s en self =
     (if en
      then (case map_of (active_log_file_handles self) s of
              None \<Rightarrow>
                (case open_log_file clk env s self of
                   (Some e, s1) \<Rightarrow> (Some e, s1)
                 | (None, s1) \<Rightarrow> (None, log_write clk env rd s s1))
            | Some f \<Rightarrow> (None, log_write clk env rd s self))
      else (None, self))"
  by (auto simp: log_one_def log_write_def Let_def split: option.splits prod.splits)

lemma log_write_handles:
  "active_log_file_handles (log_write clk env rd s self) = active_log_file_handles self"
  by (auto simp: log_write_def Let_def emit_def split: option.splits prod.splits
      dest: arg_cong [where f = "\<lambda>r. active_log_file_handles (snd r)"] simp: write_row_frame)

lemma log_write_frame:
  "emitted (log_write clk env rd s self) = emitted self @ emitted_since self (log_write clk env rd s self)"
  "log_path_internal (log_write clk env rd s self) = log_path_internal self"
  "log_settings_internal (log_write clk env rd s self) = log_settings_internal self"
  "archive_enabled_internal (log_write clk env rd s self) = archive_enabled_internal self"
  "last_archive_time (log_write clk env rd s self) = last_archive_time self"
  "archive_interval_hours (log_write clk env rd s self) = archive_interval_hours self"
  "archive_path_internal (log_write clk env rd s self) = archive_path_internal self"
  by (auto simp: log_write_def Let_def emit_def emitted_since_def write_row_def split: option.splits prod.splits)

lemma log_write_grows: "fs_grows (fs self) (fs (log_write clk env rd s self))"
  by (auto simp: log_write_def Let_def emit_def write_row_def fs_grows_def split: option.splits prod.splits)

lemma log_write_ok:
  assumes "map_of (active_log_file_handles self) s = Some f" and "\<not> f_closed f"
    and "write_fails env (f_name f) = None" and "fs self (f_name f) = Some rows"
  shows "log_write clk env rd s self =
           self \<lparr> fs := (fs self)(f_name f \<mapsto>
                     rows @ [csv_row (clock_iso clk) s (case map_of rd s of Some d \<Rightarrow> d | None \<Rightarrow> [])]) \<rparr>"
  using assms by (simp add: log_write_def Let_def write_row_def)

lemma log_write_no_handle:
  "map_of (active_log_file_handles self) s = None \<Longrightarrow> log_write clk env rd s self = self"
  by (simp add: log_write_def)

text \<open>The loop over the settings visits the sensors one after the other.\<close>

lemma log_each_append:
  "log_each clk env rd (xs @ ys) self =
     (case log_each clk env rd xs self of
        (Some e, s1) \<Rightarrow> (Some e, s1)
      | (None, s1) \<Rightarrow> log_each clk env rd ys s1)"
  by (induction xs arbitrary: self) (auto split: prod.splits option.splits)

lemma log_one_other_handle:
  "t \<noteq> s \<Longrightarrow> map_of (active_log_file_handles (snd (log_one clk env rd t en self))) s
               = map_of (active_log_file_handles self) s"
  using open_log_file_other_handle [of s t clk env self]
  by (auto simp: log_one_eq log_write_handles split: option.splits prod.splits)

lemma log_one_grows: "fs_grows (fs self) (fs (snd (log_one clk env rd t en self)))"
  using open_log_file_grows [of self clk env t] log_write_grows fs_grows_trans
  by (fastforce simp: log_one_eq fs_grows_refl split: option.splits prod.splits)

lemma log_one_frame:
  "log_path_internal (snd (log_one clk env rd t en self)) = log_path_internal self"
  "archive_enabled_internal (snd (log_one clk env rd t en self)) = archive_enabled_internal self"
  "last_archive_time (snd (log_one clk env rd t en self)) = last_archive_time self"
  "archive_interval_hours (snd (log_one clk env rd t en self)) = archive_interval_hours self"
  using open_log_file_frame [of clk env t self]
  by (auto simp: log_one_eq log_write_frame split: option.splits prod.splits)

lemma log_one_emitted:
  "\<exists>new. emitted (snd (log_one clk env rd t en self)) = emitted self @ new"
proof -
  obtain n1 where n1: "emitted (snd (open_log_file clk env t self)) = emitted self @ n1"
    using emitted_open_log_file by blast
  have w: "\<exists>new. emitted (log_write clk env rd t x) = emitted x @ new" for x
    using log_write_frame(1) by blast
  show ?thesis
    using n1 w [of self] w [of "snd (open_log_file clk env t self)"]
    by (auto simp: log_one_eq split: option.splits prod.splits)
qed

lemma log_one_returns:
  assumes "\<forall>p. makedirs_fails env p = None"
  shows "fst (log_one clk env rd t en self) = None"
  using assms
  by (auto simp: log_one_eq open_log_file_no_handle split: option.splits prod.splits)

lemma log_each_returns:
  assumes "\<forall>p. makedirs_fails env p = None"
  shows "fst (log_each clk env rd xs self) = None"
proof (induction xs arbitrary: self)
  case Nil
  show ?case by simp
next
  case (Cons x xs)
  obtain t en where x: "x = (t, en)" by (cases x)
  have "fst (log_one clk env rd t en self) = None"
    using assms by (rule log_one_returns)
  then obtain s1 where "log_one clk env rd t en self = (None, s1)"
    by (cases "log_one clk env rd t en self") auto
  then show ?case using Cons.IH [of s1] by (simp add: x)
qed

lemma log_each_step:
  assumes "\<forall>p. makedirs_fails env p = None"
  shows "log_each clk env rd ((t, en) # xs) self =
           log_each clk env rd xs (snd (log_one clk env rd t en self))"
proof -
  have "fst (log_one clk env rd t en self) = None"
    using assms by (rule log_one_returns)
  then show ?thesis
    by (cases "log_one clk env rd t en self") auto
qed

lemma log_each_other_handle:
  assumes "\<forall>p. makedirs_fails env p = None" and "s \<notin> fst ` set xs"
  shows "map_of (active_log_file_handles (snd (log_each clk env rd xs self))) s
           = map_of (active_log_file_handles self) s"
  using assms(2)
proof (induction xs arbitrary: self)
  case Nil
  show ?case by simp
next
  case (Cons x xs)
  obtain t en where x: "x = (t, en)" by (cases x)
  with Cons.prems have ts: "t \<noteq> s" and rest: "s \<notin> fst ` set xs" by auto
  have eq: "log_each clk env rd (x # xs) self = log_each clk env rd xs (snd (log_one clk env rd t en self))"
    unfolding x by (rule log_each_step [OF assms(1)])
  show ?case
    using Cons.IH [OF rest, of "snd (log_one clk env rd t en self)"]
          log_one_other_handle [OF ts, of clk env rd en self]
    by (simp only: eq)
qed

lemma log_each_grows:
  assumes "\<forall>p. makedirs_fails env p = None"
  shows "fs_grows (fs self) (fs (snd (log_each clk env rd xs self)))"
proof (induction xs arbitrary: self)
  case Nil
  show ?case by (simp add: fs_grows_refl)
next
  case (Cons x xs)
  obtain t en where x: "x = (t, en)" by (cases x)
  have eq: "log_each clk env rd (x # xs) self = log_each clk env rd xs (snd (log_one clk env rd t en self))"
    unfolding x by (rule log_each_step [OF assms])
  show ?case
    unfolding eq
    by (rule fs_grows_trans [OF log_one_grows [of self clk env rd t en] Cons.IH])
qed

lemma log_each_emitted:
  assumes "\<forall>p. makedirs_fails env p = None"
  shows "\<exists>new. emitted (snd (log_each clk env rd xs self)) = emitted self @ new"
proof (induction xs arbitrary: self)
  case Nil
  show ?case by simp
next
  case (Cons x xs)
  obtain t en where x: "x = (t, en)" by (cases x)
  obtain n1 where n1: "emitted (snd (log_one clk env rd t en self)) = emitted self @ n1"
    using log_one_emitted by blast
  obtain n2 where "emitted (snd (log_each clk env rd xs (snd (log_one clk env rd t en self))))
      = emitted (snd (log_one clk env rd t en self)) @ n2"
    using Cons.IH by blast
  moreover have eq: "log_each clk env rd (x # xs) self = log_each clk env rd xs (snd (log_one clk env rd t en self))"
    unfolding x by (rule log_each_step [OF assms])
  ultimately show ?case
    using n1 by simp
qed

lemma log_each_frame:
  assumes "\<forall>p. makedirs_fails env p = None"
  shows "archive_enabled_internal (snd (log_each clk env rd xs self)) = archive_enabled_internal self
       \<and> last_archive_time (snd (log_each clk env rd xs self)) = last_archive_time self
       \<and> archive_interval_hours (snd (log_each clk env rd xs self)) = archive_interval_hours self
       \<and> log_path_internal (snd (log_each clk env rd xs self)) = log_path_internal self"
proof (induction xs arbitrary: self)
  case Nil
  show ?case by simp
next
  case (Cons x xs)
  obtain t en where x: "x = (t, en)" by (cases x)
  have eq: "log_each clk env rd (x # xs) self = log_each clk env rd xs (snd (log_one clk env rd t en self))"
    unfolding x by (rule log_each_step [OF assms])
  show ?case
    unfolding eq
    using Cons.IH [of "snd (log_one clk env rd t en self)"]
    by (simp add: log_one_frame)
qed

subsection \<open>A failed open and the next attempts\<close>

lemma open_log_file_failure:
  assumes mk: "makedirs_fails env (log_path_internal self @ [s]) = None"
    and op: "open_fails env (csv_path (log_path_internal self) s (clock_today clk)) = Some m"
    and h: "\<forall>f. map_of (active_log_file_handles self) s = Some f \<longrightarrow>
                f_name f \<noteq> csv_path (log_path_internal self) s (clock_today clk) \<and>
                close_fails env (f_name f) = None"
  shows "fst (open_log_file clk env s self) = None
       \<and> map_of (active_log_file_handles (snd (open_log_file clk env s self))) s = None
       \<and> fs (snd (open_log_file clk env s self)) = fs self
       \<and> emitted (snd (open_log_file clk env s self)) =
           emitted self @ [(''Error opening/creating log file for '' @ s @ '': '' @ m, ''danger'')]"
proof (cases "map_of (active_log_file_handles self) s")
  case None
  then show ?thesis
    using mk op by (simp add: open_log_file_no_handle open_new_fails open_failed_simps)
next
  case (Some f)
  with h have "f_name f \<noteq> csv_path (log_path_internal self) s (clock_today clk)"
    and "close_fails env (f_name f) = None" by auto
  with Some mk op show ?thesis
    by (simp add: open_log_file_def Let_def open_new_fails open_failed_simps)
qed

lemma log_one_open_fails:
  assumes mk: "\<forall>p. makedirs_fails env p = None"
    and nh: "map_of (active_log_file_handles self) s = None"
    and op: "open_fails env (csv_path (log_path_internal self) s (clock_today clk)) = Some m"
  shows "map_of (active_log_file_handles (snd (log_one clk env rd s True self))) s = None
       \<and> emitted (snd (log_one clk env rd s True self)) =
           emitted self @ [(''Error opening/creating log file for '' @ s @ '': '' @ m, ''danger'')]"
  using assms
  by (simp add: log_one_eq open_log_file_no_handle open_new_fails open_failed_simps log_write_no_handle)

lemma log_one_open_ok:
  assumes mk: "\<forall>p. makedirs_fails env p = None"
    and nh: "map_of (active_log_file_handles self) s = None"
    and op: "open_fails env (csv_path (log_path_internal self) s (clock_today clk)) = None"
    and wr: "write_fails env (csv_path (log_path_internal self) s (clock_today clk)) = None"
  shows "map_of (active_log_file_handles (snd (log_one clk env rd s True self))) s
           = Some \<lparr> f_name = csv_path (log_path_internal self) s (clock_today clk), f_closed = False \<rparr>
       \<and> (\<exists>rows. fs (snd (log_one clk env rd s True self))
                    (csv_path (log_path_internal self) s (clock_today clk))
                  = Some (rows @ [csv_row (clock_iso clk) s (case map_of rd s of Some d \<Rightarrow> d | None \<Rightarrow> [])]))"
proof -
  let ?p = "csv_path (log_path_internal self) s (clock_today clk)"
  let ?f = "\<lparr> f_name = ?p, f_closed = False \<rparr>"
  let ?s1 = "open_new env s ?p self"
  have one: "log_one clk env rd s True self = (None, log_write clk env rd s ?s1)"
    using mk nh by (simp add: log_one_eq open_log_file_no_handle)
  have hs1: "map_of (active_log_file_handles ?s1) s = Some ?f"
    using op wr by (simp add: open_new_def Let_def map_of_update_handles split: option.splits)
  have "\<exists>rows. fs ?s1 ?p = Some rows"
    using op wr by (simp add: open_new_fs split: option.splits)
  then obtain rows where rows: "fs ?s1 ?p = Some rows" ..
  have "log_write clk env rd s ?s1 =
          ?s1 \<lparr> fs := (fs ?s1)(?p \<mapsto> rows @ [csv_row (clock_iso clk) s (case map_of rd s of Some d \<Rightarrow> d | None \<Rightarrow> [])]) \<rparr>"
    using log_write_ok [OF hs1, of env rows clk rd] wr rows by simp
  then show ?thesis
    using one hs1 by simp
qed

text \<open>
  The loop of \<open>log_sensor_data\<close> seen from one enabled sensor: the state \<open>a\<close> in which
  its turn comes and the state \<open>c\<close> at the end of the loop.
\<close>

lemma log_each_result:
  assumes "\<forall>p. makedirs_fails env p = None"
  shows "\<exists>c. log_each clk env rd xs self = (None, c)"
  using log_each_returns [OF assms, of clk rd xs self]
  by (cases "log_each clk env rd xs self") auto

lemma log_each_at:
  assumes mk: "\<forall>p. makedirs_fails env p = None"
    and dist: "distinct (map fst xs)" and mem: "(s, True) \<in> set xs"
  shows "\<exists>a c. log_each clk env rd xs self = (None, c)
       \<and> map_of (active_log_file_handles a) s = map_of (active_log_file_handles self) s
       \<and> log_path_internal a = log_path_internal self
       \<and> (\<exists>n. emitted a = emitted self @ n)
       \<and> map_of (active_log_file_handles c) s
           = map_of (active_log_file_handles (snd (log_one clk env rd s True a))) s
       \<and> fs_grows (fs (snd (log_one clk env rd s True a))) (fs c)
       \<and> (\<exists>n. emitted c = emitted (snd (log_one clk env rd s True a)) @ n)"
proof -
  from mem obtain pre post where xs: "xs = pre @ (s, True) # post"
    by (auto dest: split_list)
  with dist have npre: "s \<notin> fst ` set pre" and npost: "s \<notin> fst ` set post"
    by auto
  obtain a where pre: "log_each clk env rd pre self = (None, a)"
    using log_each_result [OF mk] by blast
  define b where "b = snd (log_one clk env rd s True a)"
  obtain c where post: "log_each clk env rd post b = (None, c)"
    using log_each_result [OF mk] by blast
  have a_eq: "snd (log_each clk env rd pre self) = a" using pre by simp
  have c_eq: "snd (log_each clk env rd post b) = c" using post by simp
  have "log_each clk env rd ((s, True) # post) a = (None, c)"
    using post by (simp only: log_each_step [OF mk] b_def)
  then have all: "log_each clk env rd xs self = (None, c)"
    by (simp only: xs log_each_append pre prod.case option.case)
  have ha: "map_of (active_log_file_handles a) s = map_of (active_log_file_handles self) s"
    using log_each_other_handle [OF mk npre, of clk rd self] by (simp only: a_eq)
  have pa: "log_path_internal a = log_path_internal self"
    using log_each_frame [OF mk, of clk rd pre self] by (simp only: a_eq)
  have ea: "\<exists>n. emitted a = emitted self @ n"
    using log_each_emitted [OF mk, of clk rd pre self] by (simp only: a_eq)
  have hc: "map_of (active_log_file_handles c) s = map_of (active_log_file_handles b) s"
    using log_each_other_handle [OF mk npost, of clk rd b] by (simp only: c_eq)
  have gc: "fs_grows (fs b) (fs c)"
    using log_each_grows [OF mk, of b clk rd post] by (simp only: c_eq)
  have ec: "\<exists>n. emitted c = emitted b @ n"
    using log_each_emitted [OF mk, of clk rd post b] by (simp only: c_eq)
  from all ha pa ea hc gc ec show ?thesis unfolding b_def by blast
qed

lemma log_sensor_data_not_due:
  assumes mk: "\<forall>p. makedirs_fails env p = None" and nd: "\<not> archive_due clk self"
  shows "log_sensor_data clk env rd self = log_each clk env rd (log_settings_internal self) self"
proof -
  obtain c where r: "log_each clk env rd (log_settings_internal self) self = (None, c)"
    using log_each_result [OF mk] by blast
  then have c_eq: "snd (log_each clk env rd (log_settings_internal self) self) = c" by simp
  have "\<not> archive_due clk c"
    using nd log_each_frame [OF mk, of clk rd "log_settings_internal self" self]
    by (simp add: archive_due_def c_eq)
  then show ?thesis
    by (simp add: log_sensor_data_def check_and_archive_auto_def r)
qed

lemma log_sensor_data_returns:
  assumes mk: "\<forall>p. makedirs_fails env p = None" and nd: "\<not> archive_due clk self"
  shows "fst (log_sensor_data clk env rd self) = None"
  unfolding log_sensor_data_not_due [OF mk nd] using mk by (rule log_each_returns)

lemma log_sensor_data_retry_fails:
  assumes mk: "\<forall>p. makedirs_fails env p = None" and nd: "\<not> archive_due clk self"
    and mem: "(s, True) \<in> set (log_settings_internal self)"
    and dist: "distinct (map fst (log_settings_internal self))"
    and nh: "map_of (active_log_file_handles self) s = None"
    and op: "open_fails env (csv_path (log_path_internal self) s (clock_today clk)) = Some m"
  shows "map_of (active_log_file_handles (snd (log_sensor_data clk env rd self))) s = None \<and>
         (''Error opening/creating log file for '' @ s @ '': '' @ m, ''danger'')
           \<in> set (emitted_since self (snd (log_sensor_data clk env rd self)))"
proof -
  have eq: "log_sensor_data clk env rd self = log_each clk env rd (log_settings_internal self) self"
    using mk nd by (rule log_sensor_data_not_due)
  from log_each_at [OF mk dist mem, of clk rd self]
  obtain a c n1 n3 where c: "log_each clk env rd (log_settings_internal self) self = (None, c)"
    and ha: "map_of (active_log_file_handles a) s = map_of (active_log_file_handles self) s"
    and pa: "log_path_internal a = log_path_internal self"
    and ea: "emitted a = emitted self @ n1"
    and hc: "map_of (active_log_file_handles c) s
           = map_of (active_log_file_handles (snd (log_one clk env rd s True a))) s"
    and ec: "emitted c = emitted (snd (log_one clk env rd s True a)) @ n3"
    by blast
  have one: "map_of (active_log_file_handles (snd (log_one clk env rd s True a))) s = None
       \<and> emitted (snd (log_one clk env rd s True a)) =
           emitted a @ [(''Error opening/creating log file for '' @ s @ '': '' @ m, ''danger'')]"
    using log_one_open_fails [OF mk, of a s clk m rd] ha nh op pa by simp
  show ?thesis
    using one hc ec ea by (simp add: eq c emitted_since_def)
qed

lemma log_sensor_data_retry_ok:
  assumes mk: "\<forall>p. makedirs_fails env p = None" and nd: "\<not> archive_due clk self"
    and mem: "(s, True) \<in> set (log_settings_internal self)"
    and dist: "distinct (map fst (log_settings_internal self))"
    and nh: "map_of (active_log_file_handles self) s = None"
    and op: "open_fails env (csv_path (log_path_internal self) s (clock_today clk)) = None"
    and wr: "write_fails env (csv_path (log_path_internal self) s (clock_today clk)) = None"
  shows "map_of (active_log_file_handles (snd (log_sensor_data clk env rd self))) s
           = Some \<lparr> f_name = csv_path (log_path_internal self) s (clock_today clk), f_closed = False \<rparr> \<and>
         (\<exists>rows. fs (snd (log_sensor_data clk env rd self))
                    (csv_path (log_path_internal self) s (clock_today clk)) = Some rows \<and>
                  csv_row (clock_iso clk) s (case map_of rd s of Some d \<Rightarrow> d | None \<Rightarrow> []) \<in> set rows)"
proof -
  have eq: "log_sensor_data clk env rd self = log_each clk env rd (log_settings_internal self) self"
    using mk nd by (rule log_sensor_data_not_due)
  from log_each_at [OF mk dist mem, of clk rd self]
  obtain a c where c: "log_each clk env rd (log_settings_internal self) self = (None, c)"
    and ha: "map_of (active_log_file_handles a) s = map_of (active_log_file_handles self) s"
    and pa: "log_path_internal a = log_path_internal self"
    and hc: "map_of (active_log_file_handles c) s
           = map_of (active_log_file_handles (snd (log_one clk env rd s True a))) s"
    and gc: "fs_grows (fs (snd (log_one clk env rd s True a))) (fs c)"
    by blast
  let ?p = "csv_path (log_path_internal self) s (clock_today clk)"
  let ?row = "csv_row (clock_iso clk) s (case map_of rd s of Some d \<Rightarrow> d | None \<Rightarrow> [])"
  have one: "map_of (active_log_file_handles (snd (log_one clk env rd s True a))) s
           = Some \<lparr> f_name = ?p, f_closed = False \<rparr>
       \<and> (\<exists>rows. fs (snd (log_one clk env rd s True a)) ?p = Some (rows @ [?row]))"
    using log_one_open_ok [OF mk, of a s clk rd] ha nh op wr pa by simp
  then obtain rows where rows: "fs (snd (log_one clk env rd s True a)) ?p = Some (rows @ [?row])"
    by blast
  with gc obtain more where "fs c ?p = Some ((rows @ [?row]) @ more)"
    unfolding fs_grows_def by blast
  then have "\<exists>rows. fs c ?p = Some rows \<and> ?row \<in> set rows" by simp
  then show ?thesis
    using one hc by (simp add: eq c)
qed

text \<open>
  C5. When opening the CSV file of a sensor raises, \<open>_open_log_file\<close> returns normally,
  emits the error message and leaves the sensor without a handle. A later
  \<open>log_sensor_data\<close> for a sensor that is enabled and has no handle (no \<open>os.makedirs\<close>
  failing and no archive due in that call) opens the file again: when the open raises
  again the error is emitted again and the sensor stays without a handle; when the
  open and the write succeed the sensor has its handle and the row of this call is in
  the file.
\<close>

theorem open_failure_dropped_then_retried:
  "(makedirs_fails env (log_path_internal self @ [s]) = None \<and>
    open_fails env (csv_path (log_path_internal self) s (clock_today clk)) = Some m \<and>
    (\<forall>f. map_of (active_log_file_handles self) s = Some f \<longrightarrow>
           f_name f \<noteq> csv_path (log_path_internal self) s (clock_today clk) \<and>
           close_fails env (f_name f) = None) \<longrightarrow>
      fst (open_log_file clk env s self) = None \<and>
      map_of (active_log_file_handles (snd (open_log_file clk env s self))) s = None \<and>
      emitted (snd (open_log_file clk env s self)) =
        emitted self @ [(''Error opening/creating log file for '' @ s @ '': '' @ m, ''danger'')])
   \<and> ((s, True) \<in> set (log_settings_internal later) \<and> distinct (map fst (log_settings_internal later)) \<and>
       map_of (active_log_file_handles later) s = None \<and>
       (\<forall>p. makedirs_fails env' p = None) \<and> \<not> archive_due clk' later \<longrightarrow>
      fst (log_sensor_data clk' env' rd later) = None \<and>
      (open_fails env' (csv_path (log_path_internal later) s (clock_today clk')) = Some m' \<longrightarrow>
         map_of (active_log_file_handles (snd (log_sensor_data clk' env' rd later))) s = None \<and>
         (''Error opening/creating log file for '' @ s @ '': '' @ m', ''danger'')
           \<in> set (emitted_since later (snd (log_sensor_data clk' env' rd later)))) \<and>
      (open_fails env' (csv_path (log_path_internal later) s (clock_today clk')) = None \<and>
       write_fails env' (csv_path (log_path_internal later) s (clock_today clk')) = None \<longrightarrow>
         map_of (active_log_file_handles (snd (log_sensor_data clk' env' rd later))) s
           = Some \<lparr> f_name = csv_path (log_path_internal later) s (clock_today clk'), f_closed = False \<rparr> \<and>
         (\<exists>rows. fs (snd (log_sensor_data clk' env' rd later))
                    (csv_path (log_path_internal later) s (clock_today clk')) = Some rows \<and>
                  csv_row (clock_iso clk') s (case map_of rd s of Some d \<Rightarrow> d | None \<Rightarrow> []) \<in> set rows)))"
  using open_log_file_failure [of env self s clk m]
        log_sensor_data_returns [of env' clk' later rd]
        log_sensor_data_retry_fails [of env' clk' later s m' rd]
        log_sensor_data_retry_ok [of env' clk' later s rd]
  by blast

theorem open_failure_dropped_then_retried_witness:
  "makedirs_fails open_denied (log_path_internal fresh_logger @ [''bme280'']) = None
   \<and> open_fails open_denied (csv_path (log_path_internal fresh_logger) ''bme280'' (clock_today clock_a))
       = Some ''Permission denied''
   \<and> map_of (active_log_file_handles fresh_logger) ''bme280'' = None
   \<and> fst (open_log_file clock_a open_denied ''bme280'' fresh_logger) = None
   \<and> map_of (active_log_file_handles (snd (open_log_file clock_a open_denied ''bme280'' fresh_logger))) ''bme280'' = None
   \<and> emitted (snd (open_log_file clock_a open_denied ''bme280'' fresh_logger)) =
        emitted fresh_logger @ [(''Error opening/creating log file for '' @ ''bme280'' @ '': '' @ ''Permission denied'', ''danger'')]
   \<and> (''bme280'', True) \<in> set (log_settings_internal (snd (open_log_file clock_a open_denied ''bme280'' fresh_logger)))
   \<and> distinct (map fst (log_settings_internal (snd (open_log_file clock_a open_denied ''bme280'' fresh_logger))))
   \<and> \<not> archive_due clock_a (snd (open_log_file clock_a open_denied ''bme280'' fresh_logger))
   \<and> fst (log_sensor_data clock_a open_denied example_readings
             (snd (open_log_file clock_a open_denied ''bme280'' fresh_logger))) = None
   \<and> map_of (active_log_file_handles (snd (log_sensor_data clock_a open_denied example_readings
             (snd (open_log_file clock_a open_denied ''bme280'' fresh_logger))))) ''bme280'' = None
   \<and> (''Error opening/creating log file for '' @ ''bme280'' @ '': '' @ ''Permission denied'', ''danger'')
        \<in> set (emitted_since (snd (open_log_file clock_a open_denied ''bme280'' fresh_logger))
                 (snd (log_sensor_data clock_a open_denied example_readings
                    (snd (open_log_file clock_a open_denied ''bme280'' fresh_logger)))))
   \<and> fst (log_sensor_data clock_a no_faults example_readings
             (snd (open_log_file clock_a open_denied ''bme280'' fresh_logger))) = None
   \<and> map_of (active_log_file_handles (snd (log_sensor_data clock_a no_faults example_readings
             (snd (open_log_file clock_a open_denied ''bme280'' fresh_logger))))) ''bme280''
       = Some \<lparr> f_name = csv_path (log_path_internal (snd (open_log_file clock_a open_denied ''bme280'' fresh_logger)))
                            ''bme280'' (clock_today clock_a), f_closed = False \<rparr>
   \<and> (\<exists>rows. fs (snd (log_sensor_data clock_a no_faults example_readings
                        (snd (open_log_file clock_a open_denied ''bme280'' fresh_logger))))
                 (csv_path (log_path_internal (snd (open_log_file clock_a open_denied ''bme280'' fresh_logger)))
                    ''bme280'' (clock_today clock_a)) = Some rows
              \<and> csv_row (clock_iso clock_a) ''bme280''
                   (case map_of example_readings ''bme280'' of Some d \<Rightarrow> d | None \<Rightarrow> []) \<in> set rows)"
proof -
  let ?later = "snd (open_log_file clock_a open_denied ''bme280'' fresh_logger)"
  have mk0: "makedirs_fails open_denied (log_path_internal fresh_logger @ [''bme280'']) = None"
    by (simp add: open_denied_def)
  have op0: "open_fails open_denied (csv_path (log_path_internal fresh_logger) ''bme280'' (clock_today clock_a))
       = Some ''Permission denied''"
    by (simp add: open_denied_def)
  have nh0: "map_of (active_log_file_handles fresh_logger) ''bme280'' = None"
    by (simp add: fresh_logger_def)
  have mem: "(''bme280'', True) \<in> set (log_settings_internal ?later)"
    by (simp add: open_log_file_frame fresh_logger_def)
  have dist: "distinct (map fst (log_settings_internal ?later))"
    by (simp add: open_log_file_frame fresh_logger_def)
  have nd: "\<not> archive_due clock_a ?later"
    by (simp add: archive_due_def open_log_file_frame fresh_logger_def clock_a_def)
  have mk1: "\<forall>p. makedirs_fails open_denied p = None"
    by (simp add: open_denied_def)
  have mk2: "\<forall>p. makedirs_fails no_faults p = None"
    by (simp add: no_faults_def)
  have op1: "open_fails open_denied (csv_path (log_path_internal ?later) ''bme280'' (clock_today clock_a))
       = Some ''Permission denied''"
    by (simp add: open_denied_def)
  have op2: "open_fails no_faults (csv_path (log_path_internal ?later) ''bme280'' (clock_today clock_a)) = None"
    and wr2: "write_fails no_faults (csv_path (log_path_internal ?later) ''bme280'' (clock_today clock_a)) = None"
    by (simp_all add: no_faults_def)
  note first = open_failure_dropped_then_retried
      [of open_denied fresh_logger "''bme280''" clock_a "''Permission denied''" ?later
          open_denied clock_a example_readings "''Permission denied''"]
  note second = open_failure_dropped_then_retried
      [of open_denied fresh_logger "''bme280''" clock_a "''Permission denied''" ?later
          no_faults clock_a example_readings "''Permission denied''"]
  from first mk0 op0 nh0 have p1: "fst (open_log_file clock_a open_denied ''bme280'' fresh_logger) = None
     \<and> map_of (active_log_file_handles ?later) ''bme280'' = None
     \<and> emitted ?later =
        emitted fresh_logger @ [(''Error opening/creating log file for '' @ ''bme280'' @ '': '' @ ''Permission denied'', ''danger'')]"
    by simp
  then have nh1: "map_of (active_log_file_handles ?later) ''bme280'' = None" by blast
  from first mem dist nh1 mk1 nd op1 have p2:
    "fst (log_sensor_data clock_a open_denied example_readings ?later) = None
     \<and> map_of (active_log_file_handles (snd (log_sensor_data clock_a open_denied example_readings ?later))) ''bme280'' = None
     \<and> (''Error opening/creating log file for '' @ ''bme280'' @ '': '' @ ''Permission denied'', ''danger'')
        \<in> set (emitted_since ?later (snd (log_sensor_data clock_a open_denied example_readings ?later)))"
    by blast
  from second mem dist nh1 mk2 nd op2 wr2 have p3:
    "fst (log_sensor_data clock_a no_faults example_readings ?later) = None
     \<and> map_of (active_log_file_handles (snd (log_sensor_data clock_a no_faults example_readings ?later))) ''bme280''
       = Some \<lparr> f_name = csv_path (log_path_internal ?later) ''bme280'' (clock_today clock_a), f_closed = False \<rparr>
     \<and> (\<exists>rows. fs (snd (log_sensor_data clock_a no_faults example_readings ?later))
                 (csv_path (log_path_internal ?later) ''bme280'' (clock_today clock_a)) = Some rows
              \<and> csv_row (clock_iso clock_a) ''bme280''
                   (case map_of example_readings ''bme280'' of Some d \<Rightarrow> d | None \<Rightarrow> []) \<in> set rows)"
    by blast
  from mk0 op0 nh0 p1 mem dist nd p2 p3 show ?thesis by blast
qed

subsection \<open>The archive\<close>

text \<open>
  C2. The claim that \<open>archive_logs\<close> and the \<open>log_sensor_data\<close> calls after it never
  raise does not hold for the PyQt5 logger. Here a logger with two open log files is
  archived: the first file is moved and its handle deleted in the \<open>try\<close> block, then the
  \<open>del\<close> of the \<open>finally\<close> branch raises \<open>KeyError\<close>, which leaves \<open>archive_logs\<close>; a
  \<open>log_sensor_data\<close> call for which the automatic archive is due raises it as well.
\<close>

theorem archive_logs_raises_KeyError:
  "fst (open_initial_log_files clock_a no_faults fresh_logger) = None
   \<and> fst (archive_logs clock_a no_faults (snd (open_initial_log_files clock_a no_faults fresh_logger)))
       = Some (KeyError ''bme280'')
   \<and> fst (log_sensor_data clock_b no_faults example_readings
            (snd (open_initial_log_files clock_a no_faults fresh_logger)))
       = Some (KeyError ''bme280'')"
  by code_simp

subsection \<open>One header per CSV file\<close>

lemma csv_path_inj:
  "csv_path lp s d = csv_path lp t d' \<longleftrightarrow> s = t \<and> d = d'"
  by (auto simp: csv_path_def)

lemma csv_path_not_archive:
  assumes "s \<in> set sensor_names"
  shows "csv_path lp s d \<noteq> ap @ [''archive_'' @ stamp, b]"
proof
  assume eq: "csv_path lp s d = ap @ [''archive_'' @ stamp, b]"
  then have "length (csv_path lp s d) = length (ap @ [''archive_'' @ stamp, b])"
    by (rule arg_cong)
  then have "length lp = length ap" by (simp add: csv_path_def)
  with eq have "s = ''archive_'' @ stamp" by (auto simp: csv_path_def)
  with assms show False by (auto simp: sensor_names_def)
qed

lemma csv_header_sensor: "csv_header s \<noteq> None \<longleftrightarrow> s \<in> set sensor_names"
  by (simp add: csv_header_def sensor_names_def)

lemma csv_row_not_header: "csv_header s = Some header \<Longrightarrow> csv_row ts s data \<noteq> header"
  by (auto simp: csv_header_def csv_row_def get_or_na_def split: if_splits option.splits)

lemma well_headed_header: "csv_header s = Some header \<Longrightarrow> well_headed s [header]"
  by (simp add: well_headed_def)

lemma well_headed_append:
  "well_headed s rows \<Longrightarrow> well_headed s (rows @ [csv_row ts s data])"
  using csv_row_not_header [of s _ ts data]
  by (cases rows) (auto simp: well_headed_def split: option.splits)

text \<open>The two invariants depend on the log path and on the handles or the files only.\<close>

lemma handles_in_place_cong:
  "log_path_internal b = log_path_internal a \<Longrightarrow> active_log_file_handles b = active_log_file_handles a
     \<Longrightarrow> handles_in_place b = handles_in_place a"
  by (simp add: handles_in_place_def)

lemma logs_well_headed_cong:
  "log_path_internal b = log_path_internal a \<Longrightarrow> fs b = fs a
     \<Longrightarrow> logs_well_headed b = logs_well_headed a"
  by (simp add: logs_well_headed_def)

lemma handles_in_place_update:
  assumes "handles_in_place self" and "log_path_internal b = log_path_internal self"
    and "active_log_file_handles b =
           AList.update s \<lparr> f_name = csv_path (log_path_internal self) s day, f_closed = c \<rparr>
             (active_log_file_handles self)"
  shows "handles_in_place b"
  using assms by (auto simp: handles_in_place_def map_of_update_handles)

lemma handles_in_place_close:
  assumes "handles_in_place self" and "log_path_internal b = log_path_internal self"
    and "map_of (active_log_file_handles self) s = Some f"
    and "active_log_file_handles b = AList.update s (f \<lparr> f_closed := True \<rparr>) (active_log_file_handles self)"
  shows "handles_in_place b"
  using assms by (auto simp: handles_in_place_def map_of_update_handles)

lemma handles_in_place_delete:
  assumes "handles_in_place self" and "log_path_internal b = log_path_internal self"
    and "active_log_file_handles b = AList.delete s (active_log_file_handles self)"
  shows "handles_in_place b"
  using assms by (auto simp: handles_in_place_def map_of_delete_handles split: if_splits)

lemma logs_well_headed_create:
  assumes "logs_well_headed self" and "log_path_internal b = log_path_internal self"
    and "fs b = (fs self)(csv_path (log_path_internal self) s day \<mapsto> rows)"
    and "s \<in> set sensor_names \<longrightarrow> well_headed s rows"
  shows "logs_well_headed b"
  using assms by (auto simp: logs_well_headed_def csv_path_inj)

lemma logs_well_headed_move:
  assumes "logs_well_headed self" and "log_path_internal b = log_path_internal self"
    and "fs b = ((fs self)(p := None))(ap @ [''archive_'' @ stamp, base] \<mapsto> rows)"
  shows "logs_well_headed b"
  using assms csv_path_not_archive
  by (auto simp: logs_well_headed_def split: if_splits)

lemma open_failed_inv:
  "handles_in_place self \<Longrightarrow> handles_in_place (open_failed s e self)"
  "logs_well_headed (open_failed s e self) = logs_well_headed self"
   apply (rule handles_in_place_delete [where s = s and self = self])
     apply (simp_all add: open_failed_def emit_def Let_def logs_well_headed_def)
  done

lemma open_new_handles:
  "active_log_file_handles (open_new env s p self) =
     (case open_fails env p of
        Some m \<Rightarrow> AList.delete s (active_log_file_handles self)
      | None \<Rightarrow>
          (case fs self p of
             Some rows \<Rightarrow> AList.update s \<lparr> f_name = p, f_closed = False \<rparr> (active_log_file_handles self)
           | None \<Rightarrow>
               (case csv_header s of
                  None \<Rightarrow> AList.update s \<lparr> f_name = p, f_closed = False \<rparr> (active_log_file_handles self)
                | Some header \<Rightarrow>
                    (case write_fails env p of
                       Some m \<Rightarrow> AList.delete s (active_log_file_handles self)
                     | None \<Rightarrow> AList.update s \<lparr> f_name = p, f_closed = False \<rparr> (active_log_file_handles self)))))"
  by (simp add: open_new_def Let_def open_failed_def emit_def split: option.splits)

lemma open_new_in_place:
  assumes "handles_in_place self"
  shows "handles_in_place (open_new env s (csv_path (log_path_internal self) s day) self)"
proof -
  let ?p = "csv_path (log_path_internal self) s day"
  have lp: "log_path_internal (open_new env s ?p self) = log_path_internal self"
    by (rule open_new_frame)
  have "active_log_file_handles (open_new env s ?p self) = AList.delete s (active_log_file_handles self)
      \<or> active_log_file_handles (open_new env s ?p self) =
          AList.update s \<lparr> f_name = ?p, f_closed = False \<rparr> (active_log_file_handles self)"
    by (simp add: open_new_handles split: option.splits)
  then show ?thesis
    using handles_in_place_delete [OF assms lp] handles_in_place_update [OF assms lp] by blast
qed

lemma open_new_well_headed:
  assumes "logs_well_headed self" and "write_fails env (csv_path (log_path_internal self) s day) = None"
  shows "logs_well_headed (open_new env s (csv_path (log_path_internal self) s day) self)"
proof -
  let ?p = "csv_path (log_path_internal self) s day"
  have lp: "log_path_internal (open_new env s ?p self) = log_path_internal self"
    by (rule open_new_frame)
  show ?thesis
  proof (cases "open_fails env ?p = None \<and> fs self ?p = None")
    case False
    then have "fs (open_new env s ?p self) = fs self"
      by (auto simp: open_new_fs split: option.splits)
    then show ?thesis using assms(1) lp by (simp add: logs_well_headed_def)
  next
    case True
    show ?thesis
    proof (cases "csv_header s")
      case None
      with True have f: "fs (open_new env s ?p self) = (fs self)(?p \<mapsto> [])"
        by (simp add: open_new_fs)
      from None have "s \<notin> set sensor_names" using csv_header_sensor by blast
      then show ?thesis
        using logs_well_headed_create [OF assms(1) lp f] by simp
    next
      case (Some header)
      with True assms(2) have f: "fs (open_new env s ?p self) = (fs self)(?p \<mapsto> [header])"
        by (simp add: open_new_fs)
      show ?thesis
        using logs_well_headed_create [OF assms(1) lp f] well_headed_header [OF Some] by simp
    qed
  qed
qed

text \<open>
  The two invariants together, and their preservation by each method, as long as no
  write fails.
\<close>

lemma open_log_file_cases:
  "snd (open_log_file clk env s self) = self
   \<or> snd (open_log_file clk env s self) =
        open_new env s (csv_path (log_path_internal self) s (clock_today clk)) self
   \<or> (\<exists>f. map_of (active_log_file_handles self) s = Some f \<and>
            snd (open_log_file clk env s self) =
              open_new env s (csv_path (log_path_internal self) s (clock_today clk))
                (self \<lparr> active_log_file_handles :=
                          AList.update s (f \<lparr> f_closed := True \<rparr>) (active_log_file_handles self) \<rparr>))"
  by (simp add: open_log_file_def Let_def split: option.splits)

lemma open_log_file_inv:
  assumes inv: "logs_well_headed self \<and> handles_in_place self"
    and wr: "\<forall>p. write_fails env p = None"
  shows "logs_well_headed (snd (open_log_file clk env s self))
       \<and> handles_in_place (snd (open_log_file clk env s self))"
proof -
  let ?p = "csv_path (log_path_internal self) s (clock_today clk)"
  have new: "logs_well_headed (open_new env s ?p x) \<and> handles_in_place (open_new env s ?p x)"
    if x: "logs_well_headed x" "handles_in_place x" and lp: "log_path_internal x = log_path_internal self" for x
  proof -
    have w: "write_fails env (csv_path (log_path_internal x) s (clock_today clk)) = None"
      using wr by blast
    have "logs_well_headed (open_new env s (csv_path (log_path_internal x) s (clock_today clk)) x)
        \<and> handles_in_place (open_new env s (csv_path (log_path_internal x) s (clock_today clk)) x)"
      using open_new_well_headed [OF x(1) w] open_new_in_place [OF x(2), of env s "clock_today clk"]
      by blast
    then show ?thesis unfolding lp .
  qed
  from open_log_file_cases [of clk env s self]
  consider (same) "snd (open_log_file clk env s self) = self"
    | (fresh) "snd (open_log_file clk env s self) = open_new env s ?p self"
    | (stale) f where "map_of (active_log_file_handles self) s = Some f"
        "snd (open_log_file clk env s self) =
           open_new env s ?p
             (self \<lparr> active_log_file_handles :=
                       AList.update s (f \<lparr> f_closed := True \<rparr>) (active_log_file_handles self) \<rparr>)"
    by blast
  then show ?thesis
  proof cases
    case same
    show ?thesis unfolding same using inv .
  next
    case fresh
    have "logs_well_headed (open_new env s ?p self) \<and> handles_in_place (open_new env s ?p self)"
      by (rule new) (use inv in simp_all)
    then show ?thesis unfolding fresh .
  next
    case stale
    let ?x = "self \<lparr> active_log_file_handles :=
                       AList.update s (f \<lparr> f_closed := True \<rparr>) (active_log_file_handles self) \<rparr>"
    have lp: "log_path_internal ?x = log_path_internal self" by simp
    have hx: "handles_in_place ?x"
      by (rule handles_in_place_close [where self = self and s = s and f = f])
         (use inv stale(1) in simp_all)
    have "fs ?x = fs self" by simp
    with inv have wx: "logs_well_headed ?x" using logs_well_headed_cong [OF lp] by blast
    show ?thesis unfolding stale(2) using wx hx lp by (rule new)
  qed
qed

lemma open_enabled_inv:
  assumes wr: "\<forall>p. write_fails env p = None"
  shows "logs_well_headed self \<and> handles_in_place self \<Longrightarrow>
         logs_well_headed (snd (open_enabled clk env xs self))
       \<and> handles_in_place (snd (open_enabled clk env xs self))"
proof (induction xs arbitrary: self)
  case Nil
  then show ?case by simp
next
  case (Cons x xs)
  obtain t en where x: "x = (t, en)" by (cases x)
  obtain r s1 where o: "open_log_file clk env t self = (r, s1)" by (cases "open_log_file clk env t self")
  have s1: "logs_well_headed s1 \<and> handles_in_place s1"
    using open_log_file_inv [OF Cons.prems wr, of clk t] o by simp
  show ?case
    using Cons.IH [OF s1] Cons.IH [OF Cons.prems] Cons.prems s1 o
    by (cases r) (simp_all add: x)
qed

lemma log_write_fs:
  "fs (log_write clk env rd s self) =
     (case map_of (active_log_file_handles self) s of
        None \<Rightarrow> fs self
      | Some f \<Rightarrow>
          if f_closed f then fs self
          else (case write_fails env (f_name f) of
                  Some m \<Rightarrow> fs self
                | None \<Rightarrow>
                    (case fs self (f_name f) of
                       None \<Rightarrow> fs self
                     | Some rows \<Rightarrow>
                         (fs self)(f_name f \<mapsto>
                            rows @ [csv_row (clock_iso clk) s (case map_of rd s of Some d \<Rightarrow> d | None \<Rightarrow> [])]))))"
  by (simp add: log_write_def Let_def write_row_def emit_def split: option.splits)

lemma log_write_inv:
  assumes inv: "logs_well_headed self \<and> handles_in_place self"
  shows "logs_well_headed (log_write clk env rd s self) \<and> handles_in_place (log_write clk env rd s self)"
proof -
  let ?row = "csv_row (clock_iso clk) s (case map_of rd s of Some d \<Rightarrow> d | None \<Rightarrow> [])"
  have lp: "log_path_internal (log_write clk env rd s self) = log_path_internal self"
    by (rule log_write_frame)
  have hp: "handles_in_place (log_write clk env rd s self)"
    using inv handles_in_place_cong [OF lp log_write_handles] by simp
  have wh: "logs_well_headed (log_write clk env rd s self)"
  proof (cases "\<exists>f rows. map_of (active_log_file_handles self) s = Some f \<and> \<not> f_closed f \<and>
                  write_fails env (f_name f) = None \<and> fs self (f_name f) = Some rows")
    case False
    then have "fs (log_write clk env rd s self) = fs self"
      by (auto simp: log_write_fs split: option.splits)
    then show ?thesis using inv logs_well_headed_cong [OF lp] by simp
  next
    case True
    then obtain f rows where h: "map_of (active_log_file_handles self) s = Some f"
      and nc: "\<not> f_closed f" and w: "write_fails env (f_name f) = None"
      and rows: "fs self (f_name f) = Some rows"
      by blast
    have f: "fs (log_write clk env rd s self) = (fs self)(f_name f \<mapsto> rows @ [?row])"
      using h nc w rows by (simp add: log_write_fs)
    from inv h obtain day where day: "f_name f = csv_path (log_path_internal self) s day"
      by (auto simp: handles_in_place_def)
    have "s \<in> set sensor_names \<longrightarrow> well_headed s (rows @ [?row])"
    proof
      assume "s \<in> set sensor_names"
      with inv rows day have "well_headed s rows"
        unfolding logs_well_headed_def by metis
      then show "well_headed s (rows @ [?row])" by (rule well_headed_append)
    qed
    moreover have "fs (log_write clk env rd s self) =
        (fs self)(csv_path (log_path_internal self) s day \<mapsto> rows @ [?row])"
      using f day by simp
    ultimately show ?thesis
      using logs_well_headed_create [of self "log_write clk env rd s self" s day "rows @ [?row]"] inv lp
      by blast
  qed
  from wh hp show ?thesis ..
qed

lemma log_one_inv:
  assumes inv: "logs_well_headed self \<and> handles_in_place self"
    and wr: "\<forall>p. write_fails env p = None"
  shows "logs_well_headed (snd (log_one clk env rd s en self))
       \<and> handles_in_place (snd (log_one clk env rd s en self))"
proof -
  obtain r s1 where o: "open_log_file clk env s self = (r, s1)" by (cases "open_log_file clk env s self")
  have s1: "logs_well_headed s1 \<and> handles_in_place s1"
    using open_log_file_inv [OF inv wr, of clk s] o by simp
  show ?thesis
    using inv s1 o log_write_inv [OF inv, of clk env rd s] log_write_inv [OF s1, of clk env rd s]
    by (cases r) (auto simp: log_one_eq split: option.splits)
qed

lemma log_each_inv:
  assumes wr: "\<forall>p. write_fails env p = None"
  shows "logs_well_headed self \<and> handles_in_place self \<Longrightarrow>
         logs_well_headed (snd (log_each clk env rd xs self))
       \<and> handles_in_place (snd (log_each clk env rd xs self))"
proof (induction xs arbitrary: self)
  case Nil
  then show ?case by simp
next
  case (Cons x xs)
  obtain t en where x: "x = (t, en)" by (cases x)
  obtain r s1 where o: "log_one clk env rd t en self = (r, s1)" by (cases "log_one clk env rd t en self")
  have s1: "logs_well_headed s1 \<and> handles_in_place s1"
    using log_one_inv [OF Cons.prems wr, of clk rd t en] o by simp
  show ?case
    using Cons.IH [OF s1] s1 o by (cases r) (simp_all add: x)
qed

lemma emit_inv:
  "logs_well_headed (emit m c self) = logs_well_headed self"
  "handles_in_place (emit m c self) = handles_in_place self"
  by (simp_all add: emit_def logs_well_headed_def handles_in_place_def)

lemma del_handle_inv:
  assumes "logs_well_headed self \<and> handles_in_place self"
  shows "logs_well_headed (snd (del_handle s self)) \<and> handles_in_place (snd (del_handle s self))"
proof (cases "map_of (active_log_file_handles self) s = None")
  case True
  then show ?thesis using assms by (simp add: del_handle_def)
next
  case False
  let ?b = "self \<lparr> active_log_file_handles := AList.delete s (active_log_file_handles self) \<rparr>"
  have b: "snd (del_handle s self) = ?b" using False by (auto simp: del_handle_def)
  have "handles_in_place ?b"
    by (rule handles_in_place_delete [where self = self and s = s]) (use assms in simp_all)
  moreover have "logs_well_headed ?b"
    using assms logs_well_headed_cong [of ?b self] by simp
  ultimately show ?thesis unfolding b by blast
qed

lemma archive_try_cases:
  "snd (archive_try env dest s f self) = self
   \<or> snd (archive_try env dest s f self) =
        self \<lparr> active_log_file_handles :=
                 AList.update s (f \<lparr> f_closed := True \<rparr>) (active_log_file_handles self) \<rparr>
   \<or> (\<exists>rows. snd (archive_try env dest s f self) =
          snd (del_handle s
                 (self \<lparr> active_log_file_handles :=
                           AList.update s (f \<lparr> f_closed := True \<rparr>) (active_log_file_handles self),
                         fs := ((fs self)(f_name f := None))(dest @ [basename (f_name f)] \<mapsto> rows) \<rparr>)))"
  by (auto simp: archive_try_def Let_def split: option.splits)

lemma archive_try_inv:
  assumes inv: "logs_well_headed self \<and> handles_in_place self"
    and h: "map_of (active_log_file_handles self) s = Some f"
  shows "logs_well_headed (snd (archive_try env (ap @ [''archive_'' @ stamp]) s f self))
       \<and> handles_in_place (snd (archive_try env (ap @ [''archive_'' @ stamp]) s f self))"
proof -
  let ?r = "snd (archive_try env (ap @ [''archive_'' @ stamp]) s f self)"
  let ?x = "self \<lparr> active_log_file_handles :=
                     AList.update s (f \<lparr> f_closed := True \<rparr>) (active_log_file_handles self) \<rparr>"
  have hx: "handles_in_place ?x"
    by (rule handles_in_place_close [where self = self and s = s and f = f]) (use inv h in simp_all)
  have wx: "logs_well_headed ?x"
    using inv logs_well_headed_cong [of ?x self] by simp
  from archive_try_cases [of env "ap @ [''archive_'' @ stamp]" s f self]
  consider (same) "?r = self" | (closed) "?r = ?x"
    | (moved) rows where "?r = snd (del_handle s
                 (self \<lparr> active_log_file_handles :=
                           AList.update s (f \<lparr> f_closed := True \<rparr>) (active_log_file_handles self),
                         fs := ((fs self)(f_name f := None))
                                 ((ap @ [''archive_'' @ stamp]) @ [basename (f_name f)] \<mapsto> rows) \<rparr>))"
    by blast
  then show ?thesis
  proof cases
    case same
    show ?thesis unfolding same using inv .
  next
    case closed
    show ?thesis unfolding closed using wx hx ..
  next
    case moved
    let ?y = "self \<lparr> active_log_file_handles :=
                           AList.update s (f \<lparr> f_closed := True \<rparr>) (active_log_file_handles self),
                         fs := ((fs self)(f_name f := None))
                                 ((ap @ [''archive_'' @ stamp]) @ [basename (f_name f)] \<mapsto> rows) \<rparr>"
    have hy: "handles_in_place ?y"
      using hx handles_in_place_cong [of ?y ?x] by simp
    have wy: "logs_well_headed ?y"
      by (rule logs_well_headed_move [where self = self and p = "f_name f" and ap = ap and stamp = stamp
            and base = "basename (f_name f)" and rows = rows]) (use inv in simp_all)
    show ?thesis unfolding moved
      by (rule del_handle_inv) (use wy hy in blast)
  qed
qed

lemma archive_one_inv:
  assumes inv: "logs_well_headed self \<and> handles_in_place self"
  shows "logs_well_headed (snd (archive_one env (ap @ [''archive_'' @ stamp]) s self))
       \<and> handles_in_place (snd (archive_one env (ap @ [''archive_'' @ stamp]) s self))"
proof (cases "map_of (active_log_file_handles self) s")
  case None
  then show ?thesis using inv by (simp add: archive_one_def)
next
  case (Some f)
  obtain r s1 where t: "archive_try env (ap @ [''archive_'' @ stamp]) s f self = (r, s1)"
    by (cases "archive_try env (ap @ [''archive_'' @ stamp]) s f self")
  have s1: "logs_well_headed s1 \<and> handles_in_place s1"
    using archive_try_inv [OF inv Some, of env ap stamp] t by simp
  show ?thesis
  proof (cases r)
    case None
    have "archive_one env (ap @ [''archive_'' @ stamp]) s self = del_handle s s1"
      using Some t None by (simp add: archive_one_def)
    then show ?thesis using del_handle_inv [OF s1] by simp
  next
    case (Some e)
    let ?m = "emit (''Error archiving log file for '' @ s @ '': '' @ exn_message e) ''danger'' s1"
    have "archive_one env (ap @ [''archive_'' @ stamp]) s self = del_handle s ?m"
      using \<open>map_of (active_log_file_handles self) s = Some f\<close> t Some by (simp add: archive_one_def)
    moreover have "logs_well_headed ?m \<and> handles_in_place ?m"
      using s1 by (simp add: emit_inv)
    ultimately show ?thesis using del_handle_inv [of ?m s] by simp
  qed
qed

lemma archive_each_inv:
  "logs_well_headed self \<and> handles_in_place self \<Longrightarrow>
   logs_well_headed (snd (archive_each env (ap @ [''archive_'' @ stamp]) xs self))
   \<and> handles_in_place (snd (archive_each env (ap @ [''archive_'' @ stamp]) xs self))"
proof (induction xs arbitrary: self)
  case Nil
  then show ?case by simp
next
  case (Cons x xs)
  obtain r s1 where o: "archive_one env (ap @ [''archive_'' @ stamp]) x self = (r, s1)"
    by (cases "archive_one env (ap @ [''archive_'' @ stamp]) x self")
  have s1: "logs_well_headed s1 \<and> handles_in_place s1"
    using archive_one_inv [OF Cons.prems, of env ap stamp x] o by simp
  show ?case
    using Cons.IH [OF s1] s1 o by (cases r) simp_all
qed

lemma archive_logs_inv:
  assumes inv: "logs_well_headed self \<and> handles_in_place self"
    and wr: "\<forall>p. write_fails env p = None"
  shows "logs_well_headed (snd (archive_logs clk env self))
       \<and> handles_in_place (snd (archive_logs clk env self))"
proof -
  let ?s1 = "emit ''Archiving sensor logs...'' ''info'' self"
  let ?dest = "archive_path_internal ?s1 @ [''archive_'' @ clock_stamp clk]"
  have s1: "logs_well_headed ?s1 \<and> handles_in_place ?s1"
    using inv by (simp add: emit_inv)
  obtain r s2 where e: "archive_each env ?dest (map fst (active_log_file_handles ?s1)) ?s1 = (r, s2)"
    by (cases "archive_each env ?dest (map fst (active_log_file_handles ?s1)) ?s1")
  have s2: "logs_well_headed s2 \<and> handles_in_place s2"
    using archive_each_inv [OF s1, of env "archive_path_internal ?s1" "clock_stamp clk"
            "map fst (active_log_file_handles ?s1)"] e by simp
  let ?s3 = "emit (''Logs archived to '' @ path_str ?dest) ''success'' (s2 \<lparr> last_archive_time := clock_now clk \<rparr>)"
  have "logs_well_headed (s2 \<lparr> last_archive_time := clock_now clk \<rparr>)
      \<and> handles_in_place (s2 \<lparr> last_archive_time := clock_now clk \<rparr>)"
    using s2 logs_well_headed_cong [of "s2 \<lparr> last_archive_time := clock_now clk \<rparr>" s2]
          handles_in_place_cong [of "s2 \<lparr> last_archive_time := clock_now clk \<rparr>" s2]
    by simp
  then have s3: "logs_well_headed ?s3 \<and> handles_in_place ?s3"
    by (simp add: emit_inv)
  have fin: "logs_well_headed (snd (open_initial_log_files clk env ?s3))
       \<and> handles_in_place (snd (open_initial_log_files clk env ?s3))"
    unfolding open_initial_log_files_def using wr s3 by (rule open_enabled_inv)
  show ?thesis
  proof (cases "makedirs_fails env ?dest")
    case (Some m)
    then show ?thesis using s1 by (simp add: archive_logs_def Let_def)
  next
    case None
    show ?thesis
    proof (cases r)
      case (Some ex)
      then show ?thesis using None e s2 by (simp add: archive_logs_def Let_def)
    next
      case None2: None
      then show ?thesis using None e fin by (simp add: archive_logs_def Let_def)
    qed
  qed
qed

lemma log_sensor_data_inv:
  assumes inv: "logs_well_headed self \<and> handles_in_place self"
    and wr: "\<forall>p. write_fails env p = None"
  shows "logs_well_headed (snd (log_sensor_data clk env rd self))
       \<and> handles_in_place (snd (log_sensor_data clk env rd self))"
proof -
  obtain r s1 where l: "log_each clk env rd (log_settings_internal self) self = (r, s1)"
    by (cases "log_each clk env rd (log_settings_internal self) self")
  have s1: "logs_well_headed s1 \<and> handles_in_place s1"
    using log_each_inv [OF wr inv, of clk rd "log_settings_internal self"] l by simp
  show ?thesis
    using l s1 archive_logs_inv [OF s1 wr, of clk]
    by (cases r) (simp_all add: log_sensor_data_def check_and_archive_auto_def)
qed

lemma do_call_inv:
  assumes inv: "logs_well_headed self \<and> handles_in_place self"
    and wr: "\<forall>p. write_fails env p = None"
  shows "logs_well_headed (snd (do_call clk env c self)) \<and> handles_in_place (snd (do_call clk env c self))"
  using open_log_file_inv [OF inv wr] log_sensor_data_inv [OF inv wr] archive_logs_inv [OF inv wr]
  by (cases c) simp_all

lemma run_calls_inv:
  "logs_well_headed self \<and> handles_in_place self \<Longrightarrow> no_write_fails calls \<Longrightarrow>
   logs_well_headed (run_calls calls self) \<and> handles_in_place (run_calls calls self)"
proof (induction calls arbitrary: self)
  case Nil
  then show ?case by simp
next
  case (Cons x calls)
  obtain clk env c where x: "x = (clk, env, c)" by (cases x)
  from Cons.prems(2) have wr: "\<forall>p. write_fails env p = None" and rest: "no_write_fails calls"
    by (simp_all add: no_write_fails_def x)
  have "logs_well_headed (snd (do_call clk env c self)) \<and> handles_in_place (snd (do_call clk env c self))"
    using Cons.prems(1) wr by (rule do_call_inv)
  from Cons.IH [OF this rest] show ?case by (simp add: x)
qed

subsection \<open>The header row\<close>

lemma open_log_file_reaches_open:
  assumes mk: "makedirs_fails env (log_path_internal self @ [s]) = None"
    and h: "\<forall>f. map_of (active_log_file_handles self) s = Some f \<longrightarrow>
                f_name f \<noteq> csv_path (log_path_internal self) s (clock_today clk) \<and>
                close_fails env (f_name f) = None"
  shows "\<exists>x. open_log_file clk env s self =
               (None, open_new env s (csv_path (log_path_internal self) s (clock_today clk)) x)
           \<and> fs x = fs self
           \<and> AList.update s \<lparr> f_name = csv_path (log_path_internal self) s (clock_today clk), f_closed = False \<rparr>
                (active_log_file_handles x)
             = AList.update s \<lparr> f_name = csv_path (log_path_internal self) s (clock_today clk), f_closed = False \<rparr>
                (active_log_file_handles self)"
proof (cases "map_of (active_log_file_handles self) s")
  case None
  then have "open_log_file clk env s self =
               (None, open_new env s (csv_path (log_path_internal self) s (clock_today clk)) self)"
    using mk by (simp add: open_log_file_no_handle)
  then show ?thesis by blast
next
  case (Some f)
  let ?x = "self \<lparr> active_log_file_handles :=
                     AList.update s (f \<lparr> f_closed := True \<rparr>) (active_log_file_handles self) \<rparr>"
  from Some h have "f_name f \<noteq> csv_path (log_path_internal self) s (clock_today clk)"
    and "close_fails env (f_name f) = None" by auto
  with Some mk have "open_log_file clk env s self =
               (None, open_new env s (csv_path (log_path_internal self) s (clock_today clk)) ?x)"
    by (simp add: open_log_file_def Let_def)
  moreover have "fs ?x = fs self" by simp
  moreover have "AList.update s v (active_log_file_handles ?x) = AList.update s v (active_log_file_handles self)" for v
    by (simp add: AList.update_last)
  ultimately show ?thesis by blast
qed

lemma open_log_file_creates:
  assumes mk: "makedirs_fails env (log_path_internal self @ [s]) = None"
    and h: "\<forall>f. map_of (active_log_file_handles self) s = Some f \<longrightarrow>
                f_name f \<noteq> csv_path (log_path_internal self) s (clock_today clk) \<and>
                close_fails env (f_name f) = None"
    and op: "open_fails env (csv_path (log_path_internal self) s (clock_today clk)) = None"
    and nf: "fs self (csv_path (log_path_internal self) s (clock_today clk)) = None"
    and hd: "csv_header s = Some header"
    and wr: "write_fails env (csv_path (log_path_internal self) s (clock_today clk)) = None"
  shows "fst (open_log_file clk env s self) = None
       \<and> fs (snd (open_log_file clk env s self))
           = (fs self)(csv_path (log_path_internal self) s (clock_today clk) \<mapsto> [header])
       \<and> map_of (active_log_file_handles (snd (open_log_file clk env s self))) s
           = Some \<lparr> f_name = csv_path (log_path_internal self) s (clock_today clk), f_closed = False \<rparr>"
proof -
  let ?p = "csv_path (log_path_internal self) s (clock_today clk)"
  from open_log_file_reaches_open [OF mk h]
  obtain x where o: "open_log_file clk env s self = (None, open_new env s ?p x)"
    and fx: "fs x = fs self" by blast
  from nf fx have "fs x ?p = None" by simp
  from open_new_creates [OF op this hd wr] show ?thesis
    by (simp add: o fx map_of_update_handles)
qed

lemma open_log_file_appends:
  assumes mk: "makedirs_fails env (log_path_internal self @ [s]) = None"
    and h: "\<forall>f. map_of (active_log_file_handles self) s = Some f \<longrightarrow>
                f_name f \<noteq> csv_path (log_path_internal self) s (clock_today clk) \<and>
                close_fails env (f_name f) = None"
    and op: "open_fails env (csv_path (log_path_internal self) s (clock_today clk)) = None"
    and ex: "fs self (csv_path (log_path_internal self) s (clock_today clk)) = Some rows"
  shows "fst (open_log_file clk env s self) = None
       \<and> fs (snd (open_log_file clk env s self)) = fs self
       \<and> map_of (active_log_file_handles (snd (open_log_file clk env s self))) s
           = Some \<lparr> f_name = csv_path (log_path_internal self) s (clock_today clk), f_closed = False \<rparr>"
proof -
  let ?p = "csv_path (log_path_internal self) s (clock_today clk)"
  from open_log_file_reaches_open [OF mk h]
  obtain x where o: "open_log_file clk env s self = (None, open_new env s ?p x)"
    and fx: "fs x = fs self" by blast
  from ex fx have "fs x ?p = Some rows" by simp
  from open_new_appends [OF op this] show ?thesis
    by (simp add: o fx map_of_update_handles)
qed

lemma header_columns:
  "(\<exists>cols. csv_header ''bme280'' = Some (Str ''timestamp'' # cols) \<and> length cols = 7)
   \<and> (\<exists>cols. csv_header ''sgp40'' = Some (Str ''timestamp'' # cols) \<and> length cols = 1)
   \<and> (\<exists>cols. csv_header ''shtc3'' = Some (Str ''timestamp'' # cols) \<and> length cols = 2)
   \<and> (\<exists>cols. csv_header ''proximity'' = Some (Str ''timestamp'' # cols) \<and> length cols = 3)"
  by (simp add: csv_header_def)

text \<open>
  C7, as the claim states it: the header of a new BME280 file has 8 data columns plus the
  timestamp. The file that \<open>_open_log_file\<close> creates has one row of 8 columns in all, the
  timestamp and 7 data columns.
\<close>

theorem bme280_header_columns_counterexample:
  "map_option (map length)
     (fs (snd (open_log_file clock_a no_faults ''bme280'' fresh_logger))
        (csv_path (log_path_internal fresh_logger) ''bme280'' (clock_today clock_a))) = Some [8]
   \<and> (8::nat) \<noteq> 1 + 8"
  by code_simp

text \<open>
  C7, amended. When \<open>_open_log_file\<close> reaches the \<open>open\<close> call (the directory is made and
  there is no handle for this file yet) and the file does not exist, a successful open
  and header write leave the file with the header of the sensor as its only row: the
  timestamp and 7 data columns for the BME280, 1 for the SGP40, 2 for the SHTC3, 3 for
  the proximity sensor. When the file exists, it is opened without any row being
  written. So, starting from CSV files that each have exactly one header, as the first
  row (an empty log directory in particular), and as long as no write fails, every CSV
  file of the four sensors under the log path has exactly one header, as its first row,
  after any sequence of \<open>_open_log_file\<close>, \<open>log_sensor_data\<close> and \<open>archive_logs\<close> calls.
\<close>

theorem header_written_once:
  "(makedirs_fails env (log_path_internal self @ [s]) = None \<and>
    (\<forall>f. map_of (active_log_file_handles self) s = Some f \<longrightarrow>
           f_name f \<noteq> csv_path (log_path_internal self) s (clock_today clk) \<and>
           close_fails env (f_name f) = None) \<and>
    open_fails env (csv_path (log_path_internal self) s (clock_today clk)) = None \<longrightarrow>
      (fs self (csv_path (log_path_internal self) s (clock_today clk)) = None \<and>
       csv_header s = Some header \<and>
       write_fails env (csv_path (log_path_internal self) s (clock_today clk)) = None \<longrightarrow>
         fst (open_log_file clk env s self) = None \<and>
         fs (snd (open_log_file clk env s self))
           = (fs self)(csv_path (log_path_internal self) s (clock_today clk) \<mapsto> [header]) \<and>
         map_of (active_log_file_handles (snd (open_log_file clk env s self))) s
           = Some \<lparr> f_name = csv_path (log_path_internal self) s (clock_today clk), f_closed = False \<rparr>) \<and>
      (fs self (csv_path (log_path_internal self) s (clock_today clk)) = Some rows \<longrightarrow>
         fst (open_log_file clk env s self) = None \<and>
         fs (snd (open_log_file clk env s self)) = fs self \<and>
         map_of (active_log_file_handles (snd (open_log_file clk env s self))) s
           = Some \<lparr> f_name = csv_path (log_path_internal self) s (clock_today clk), f_closed = False \<rparr>))
   \<and> (\<exists>cols. csv_header ''bme280'' = Some (Str ''timestamp'' # cols) \<and> length cols = 7)
   \<and> (\<exists>cols. csv_header ''sgp40'' = Some (Str ''timestamp'' # cols) \<and> length cols = 1)
   \<and> (\<exists>cols. csv_header ''shtc3'' = Some (Str ''timestamp'' # cols) \<and> length cols = 2)
   \<and> (\<exists>cols. csv_header ''proximity'' = Some (Str ''timestamp'' # cols) \<and> length cols = 3)
   \<and> (logs_well_headed start \<and> handles_in_place start \<and> no_write_fails calls \<longrightarrow>
        logs_well_headed (run_calls calls start))"
  using open_log_file_creates [of env self s clk header]
        open_log_file_appends [of env self s clk rows]
        header_columns run_calls_inv [of start calls]
  by blast

theorem header_written_once_witness:
  "makedirs_fails no_faults (log_path_internal fresh_logger @ [''bme280'']) = None
   \<and> map_of (active_log_file_handles fresh_logger) ''bme280'' = None
   \<and> open_fails no_faults (csv_path (log_path_internal fresh_logger) ''bme280'' (clock_today clock_a)) = None
   \<and> fs fresh_logger (csv_path (log_path_internal fresh_logger) ''bme280'' (clock_today clock_a)) = None
   \<and> csv_header ''bme280'' =
        Some (map Str [''timestamp'', ''temperature_c'', ''humidity'', ''pressure_pa'', ''altitude_m'',
                       ''temperature_f'', ''dewpoint_c'', ''dewpoint_f''])
   \<and> write_fails no_faults (csv_path (log_path_internal fresh_logger) ''bme280'' (clock_today clock_a)) = None
   \<and> fst (open_log_file clock_a no_faults ''bme280'' fresh_logger) = None
   \<and> fs (snd (open_log_file clock_a no_faults ''bme280'' fresh_logger))
       = (fs fresh_logger)(csv_path (log_path_internal fresh_logger) ''bme280'' (clock_today clock_a) \<mapsto>
            [map Str [''timestamp'', ''temperature_c'', ''humidity'', ''pressure_pa'', ''altitude_m'',
                      ''temperature_f'', ''dewpoint_c'', ''dewpoint_f'']])
   \<and> map_of (active_log_file_handles (snd (open_log_file clock_a no_faults ''bme280'' fresh_logger))) ''bme280''
       = Some \<lparr> f_name = csv_path (log_path_internal fresh_logger) ''bme280'' (clock_today clock_a),
                f_closed = False \<rparr>
   \<and> makedirs_fails no_faults (log_path_internal restarted_logger @ [''bme280'']) = None
   \<and> map_of (active_log_file_handles restarted_logger) ''bme280'' = None
   \<and> open_fails no_faults (csv_path (log_path_internal restarted_logger) ''bme280'' (clock_today clock_a)) = None
   \<and> fs restarted_logger (csv_path (log_path_internal restarted_logger) ''bme280'' (clock_today clock_a))
       = Some [map Str [''timestamp'', ''temperature_c'', ''humidity'', ''pressure_pa'', ''altitude_m'',
                        ''temperature_f'', ''dewpoint_c'', ''dewpoint_f'']]
   \<and> fst (open_log_file clock_a no_faults ''bme280'' restarted_logger) = None
   \<and> fs (snd (open_log_file clock_a no_faults ''bme280'' restarted_logger)) = fs restarted_logger
   \<and> map_of (active_log_file_handles (snd (open_log_file clock_a no_faults ''bme280'' restarted_logger))) ''bme280''
       = Some \<lparr> f_name = csv_path (log_path_internal restarted_logger) ''bme280'' (clock_today clock_a),
                f_closed = False \<rparr>
   \<and> logs_well_headed fresh_logger
   \<and> handles_in_place fresh_logger
   \<and> no_write_fails example_calls
   \<and> logs_well_headed (run_calls example_calls fresh_logger)"
proof -
  let ?H = "map Str [''timestamp'', ''temperature_c'', ''humidity'', ''pressure_pa'', ''altitude_m'',
                     ''temperature_f'', ''dewpoint_c'', ''dewpoint_f'']"
  let ?P = "csv_path (log_path_internal fresh_logger) ''bme280'' (clock_today clock_a)"
  let ?Q = "csv_path (log_path_internal restarted_logger) ''bme280'' (clock_today clock_a)"
  have mk: "makedirs_fails no_faults (log_path_internal fresh_logger @ [''bme280'']) = None"
    and op: "open_fails no_faults ?P = None" and wr: "write_fails no_faults ?P = None"
    by (simp_all add: no_faults_def)
  have nh: "map_of (active_log_file_handles fresh_logger) ''bme280'' = None"
    and nf: "fs fresh_logger ?P = None"
    by (simp_all add: fresh_logger_def)
  then have h: "\<forall>f. map_of (active_log_file_handles fresh_logger) ''bme280'' = Some f \<longrightarrow>
           f_name f \<noteq> ?P \<and> close_fails no_faults (f_name f) = None"
    by simp
  have hd: "csv_header ''bme280'' = Some ?H"
    by (simp add: csv_header_def)
  have mk': "makedirs_fails no_faults (log_path_internal restarted_logger @ [''bme280'']) = None"
    and op': "open_fails no_faults ?Q = None"
    by (simp_all add: no_faults_def)
  have nh': "map_of (active_log_file_handles restarted_logger) ''bme280'' = None"
    by (simp add: restarted_logger_def fresh_logger_def)
  then have h': "\<forall>f. map_of (active_log_file_handles restarted_logger) ''bme280'' = Some f \<longrightarrow>
           f_name f \<noteq> ?Q \<and> close_fails no_faults (f_name f) = None"
    by simp
  have ex: "fs restarted_logger ?Q = Some [?H]"
    by code_simp
  have w0: "logs_well_headed fresh_logger"
    by (simp add: logs_well_headed_def fresh_logger_def)
  have h0: "handles_in_place fresh_logger"
    by (simp add: handles_in_place_def fresh_logger_def)
  have nw: "no_write_fails example_calls"
    by (simp add: no_write_fails_def example_calls_def no_faults_def)
  note a = header_written_once [of no_faults fresh_logger "''bme280''" clock_a ?H "[?H]" fresh_logger example_calls]
  note b = header_written_once [of no_faults restarted_logger "''bme280''" clock_a ?H "[?H]" fresh_logger example_calls]
  from a mk h op nf hd wr have ra:
    "fst (open_log_file clock_a no_faults ''bme280'' fresh_logger) = None
     \<and> fs (snd (open_log_file clock_a no_faults ''bme280'' fresh_logger)) = (fs fresh_logger)(?P \<mapsto> [?H])
     \<and> map_of (active_log_file_handles (snd (open_log_file clock_a no_faults ''bme280'' fresh_logger))) ''bme280''
         = Some \<lparr> f_name = ?P, f_closed = False \<rparr>"
    by blast
  from b mk' h' op' ex have rb:
    "fst (open_log_file clock_a no_faults ''bme280'' restarted_logger) = None
     \<and> fs (snd (open_log_file clock_a no_faults ''bme280'' restarted_logger)) = fs restarted_logger
     \<and> map_of (active_log_file_handles (snd (open_log_file clock_a no_faults ''bme280'' restarted_logger))) ''bme280''
         = Some \<lparr> f_name = ?Q, f_closed = False \<rparr>"
    by blast
  from a w0 h0 nw have rc: "logs_well_headed (run_calls example_calls fresh_logger)"
    by blast
  from mk nh op nf hd wr ra mk' nh' op' ex rb w0 h0 nw rc show ?thesis
    by blast
qed

end
